theory Spec2Isabelle
  imports Complex_Main "HOL-Library.Char_ord"
begin

section \<open>Go strings\<close>

text \<open>
  A Go \<^verbatim>\<open>string\<close> is a sequence of bytes, and so is \<^typ>\<open>string\<close>. The functions of
  package \<^verbatim>\<open>strings\<close> that the scraper calls are written out below, byte by byte.
  \<^verbatim>\<open>strings.ToLower\<close>, \<^verbatim>\<open>strings.TrimSpace\<close> and \<^verbatim>\<open>strings.Fields\<close> are the library's
  ASCII paths: letters \<^verbatim>\<open>A\<close> to \<^verbatim>\<open>Z\<close> are the upper-case letters and the white space is
  tab, line feed, vertical tab, form feed, carriage return and blank. Bytes from 128
  on are left as they are.
\<close>

definition isUpperByte :: "char \<Rightarrow> bool" where
  "isUpperByte c = (CHR ''A'' \<le> c \<and> c \<le> CHR ''Z'')"

definition toLowerByte :: "char \<Rightarrow> char" where
  "toLowerByte c = (if isUpperByte c then char_of (of_char c + (32::nat)) else c)"

definition ToLower :: "string \<Rightarrow> string" where
  "ToLower s = map toLowerByte s"

definition HasPrefix :: "string \<Rightarrow> string \<Rightarrow> bool" where
  "HasPrefix s p = (length p \<le> length s \<and> take (length p) s = p)"

definition HasSuffix :: "string \<Rightarrow> string \<Rightarrow> bool" where
  "HasSuffix s p = (length p \<le> length s \<and> drop (length s - length p) s = p)"

definition TrimPrefix :: "string \<Rightarrow> string \<Rightarrow> string" where
  "TrimPrefix s p = (if HasPrefix s p then drop (length p) s else s)"

definition TrimSuffix :: "string \<Rightarrow> string \<Rightarrow> string" where
  "TrimSuffix s p = (if HasSuffix s p then take (length s - length p) s else s)"

text \<open>\<^verbatim>\<open>strings.Index\<close>: the offset of the first occurrence, or \<open>-1\<close>.\<close>

fun Index :: "string \<Rightarrow> string \<Rightarrow> int" where
  "Index [] sub = (if sub = [] then 0 else -1)"
| "Index (c # cs) sub =
     (if HasPrefix (c # cs) sub then 0
      else (let i = Index cs sub in if i < 0 then -1 else i + 1))"

definition Contains :: "string \<Rightarrow> string \<Rightarrow> bool" where
  "Contains s sub = (0 \<le> Index s sub)"

text \<open>
  \<^verbatim>\<open>strings.ReplaceAll\<close>: the occurrences of \<open>old\<close> are replaced from left to right
  and do not overlap. With an empty \<open>old\<close> the library puts \<open>new\<close> before every
  character and at the end.
\<close>

function ReplaceAll :: "string \<Rightarrow> string \<Rightarrow> string \<Rightarrow> string" where
  "ReplaceAll s old new =
     (if old = [] then new @ concat (map (\<lambda>c. c # new) s)
      else if s = [] then []
      else if HasPrefix s old then new @ ReplaceAll (drop (length old) s) old new
      else hd s # ReplaceAll (tl s) old new)"
  by pat_completeness auto
termination
  by (relation "measure (\<lambda>(s, old, new). length s)") auto

text \<open>\<^verbatim>\<open>strings.TrimLeft\<close>, \<^verbatim>\<open>TrimRight\<close> and \<^verbatim>\<open>Trim\<close> with a cut set of ASCII bytes.\<close>

definition TrimLeft :: "string \<Rightarrow> string \<Rightarrow> string" where
  "TrimLeft s cutset = dropWhile (\<lambda>c. c \<in> set cutset) s"

definition TrimRight :: "string \<Rightarrow> string \<Rightarrow> string" where
  "TrimRight s cutset = rev (dropWhile (\<lambda>c. c \<in> set cutset) (rev s))"

definition Trim :: "string \<Rightarrow> string \<Rightarrow> string" where
  "Trim s cutset = TrimRight (TrimLeft s cutset) cutset"

subsection \<open>Facts about the string functions\<close>

lemma HasPrefix_iff: "HasPrefix s p \<longleftrightarrow> (\<exists>ss. s = p @ ss)"
  unfolding HasPrefix_def
  by (metis append_eq_conv_conj append_take_drop_id length_append le_add1)

lemma Index_ge: "- 1 \<le> Index s sub"
  by (induction s) (auto simp: Let_def)

lemma Index_neg_iff: "Index s sub < 0 \<longleftrightarrow> \<not> (\<exists>ps ss. s = ps @ sub @ ss)"
proof (induction s)
  case Nil
  then show ?case by auto
next
  case (Cons c cs)
  show ?case
  proof (cases "HasPrefix (c # cs) sub")
    case True
    then obtain ss where "c # cs = sub @ ss" by (auto simp: HasPrefix_iff)
    then have "c # cs = [] @ sub @ ss" by simp
    with True show ?thesis by (metis Index.simps(2) less_irrefl)
  next
    case False
    have "(\<exists>ps ss. c # cs = ps @ sub @ ss) \<longleftrightarrow> (\<exists>ps ss. cs = ps @ sub @ ss)"
    proof
      assume "\<exists>ps ss. c # cs = ps @ sub @ ss"
      then obtain ps ss where e: "c # cs = ps @ sub @ ss" by blast
      show "\<exists>ps ss. cs = ps @ sub @ ss"
      proof (cases ps)
        case Nil
        with e False show ?thesis by (auto simp: HasPrefix_iff)
      next
        case (Cons p ps')
        with e show ?thesis by auto
      qed
    next
      assume "\<exists>ps ss. cs = ps @ sub @ ss"
      then obtain ps ss where "cs = ps @ sub @ ss" by blast
      then have "c # cs = (c # ps) @ sub @ ss" by simp
      then show "\<exists>ps ss. c # cs = ps @ sub @ ss" by blast
    qed
    with False Cons.IH Index_ge[of cs sub] show ?thesis
      by (auto simp: Let_def)
  qed
qed

lemma Contains_iff: "Contains s sub \<longleftrightarrow> (\<exists>ps ss. s = ps @ sub @ ss)"
  using Index_neg_iff[of s sub] by (auto simp: Contains_def not_less[symmetric])

lemma Contains_single: "Contains s [c] \<longleftrightarrow> c \<in> set s"
  by (auto simp: Contains_iff in_set_conv_decomp)

declare ReplaceAll.simps [simp del]

lemma ReplaceAll_le:
  "old \<noteq> [] \<Longrightarrow> length new \<le> length old \<Longrightarrow> length (ReplaceAll s old new) \<le> length s"
proof (induction s old new rule: ReplaceAll.induct)
  case (1 s old new)
  show ?case
  proof (cases "s = []")
    case True
    with "1.prems" show ?thesis by (subst ReplaceAll.simps) simp
  next
    case ne: False
    show ?thesis
    proof (cases "HasPrefix s old")
      case True
      then have "length old \<le> length s" by (simp add: HasPrefix_def)
      with "1.IH"(1)[OF _ ne True] "1.prems" ne True show ?thesis
        by (subst ReplaceAll.simps) auto
    next
      case False
      from ne obtain c cs where s: "s = c # cs" by (cases s) auto
      from "1.IH"(2)[OF _ ne False] "1.prems" have "length (ReplaceAll (tl s) old new) \<le> length (tl s)"
        by simp
      with s "1.prems" False show ?thesis
        by (subst ReplaceAll.simps) simp
    qed
  qed
qed

lemma ReplaceAll_shorter:
  "old \<noteq> [] \<Longrightarrow> length new < length old \<Longrightarrow> Contains s old \<Longrightarrow>
     length (ReplaceAll s old new) < length s"
proof (induction s old new rule: ReplaceAll.induct)
  case (1 s old new)
  from "1.prems" have ne: "s \<noteq> []" by (auto simp: Contains_iff)
  show ?case
  proof (cases "HasPrefix s old")
    case True
    have le: "length (ReplaceAll (drop (length old) s) old new) \<le> length (drop (length old) s)"
      using "1.prems" by (intro ReplaceAll_le) auto
    from True have "length old \<le> length s" by (simp add: HasPrefix_def)
    with True ne "1.prems" le show ?thesis
      by (subst ReplaceAll.simps) auto
  next
    case False
    from "1.prems"(3) obtain ps ss where e: "s = ps @ old @ ss" by (auto simp: Contains_iff)
    with False have "ps \<noteq> []" by (auto simp: HasPrefix_iff)
    with e have "tl s = tl ps @ old @ ss" by (cases ps) auto
    then have "Contains (tl s) old" by (auto simp: Contains_iff)
    with "1.IH"(2)[OF _ ne False] "1.prems" ne False have "length (ReplaceAll (tl s) old new) < length (tl s)"
      by simp
    with ne False "1.prems" show ?thesis
      by (subst ReplaceAll.simps) auto
  qed
qed

lemma ReplaceAll_absent: "old \<noteq> [] \<Longrightarrow> \<not> Contains s old \<Longrightarrow> ReplaceAll s old new = s"
proof (induction s)
  case Nil
  then show ?case by (subst ReplaceAll.simps) simp
next
  case (Cons c cs)
  from Cons.prems(2) have np: "\<not> HasPrefix (c # cs) old"
    by (auto simp: Contains_iff HasPrefix_iff) (metis append_Nil)
  from Cons.prems(2) have "\<not> Contains cs old"
    by (auto simp: Contains_iff) (metis append_Cons)
  with Cons.IH Cons.prems(1) have "ReplaceAll cs old new = cs" by simp
  with np Cons.prems(1) show ?case by (subst ReplaceAll.simps) simp
qed

lemma set_ReplaceAll: "old \<noteq> [] \<Longrightarrow> set (ReplaceAll s old new) \<subseteq> set s \<union> set new"
proof (induction s old new rule: ReplaceAll.induct)
  case (1 s old new)
  show ?case
  proof (cases "s = []")
    case True
    with "1.prems" show ?thesis by (subst ReplaceAll.simps) simp
  next
    case ne: False
    show ?thesis
    proof (cases "HasPrefix s old")
      case True
      have "set (drop (length old) s) \<subseteq> set s" by (rule set_drop_subset)
      with "1.IH"(1)[OF _ ne True] "1.prems" ne True show ?thesis
        by (subst ReplaceAll.simps) auto
    next
      case False
      have "set (tl s) \<subseteq> set s" using ne by (cases s) auto
      moreover have "hd s \<in> set s" using ne by simp
      ultimately show ?thesis using "1.IH"(2)[OF _ ne False] "1.prems" ne False
        by (subst ReplaceAll.simps) auto
    qed
  qed
qed

lemma ReplaceAll_single_gone: "c \<notin> set new \<Longrightarrow> c \<notin> set (ReplaceAll s [c] new)"
proof (induction s)
  case Nil
  then show ?case by (subst ReplaceAll.simps) simp
next
  case (Cons d ds)
  then show ?case by (subst ReplaceAll.simps) (auto simp: HasPrefix_def)
qed

section \<open>Tag normalisation\<close>

text \<open>
  \<^verbatim>\<open>normalizeTag\<close> lower-cases the tag, turns blanks and underscores into hyphens,
  replaces \<^verbatim>\<open>--\<close> by \<^verbatim>\<open>-\<close> for as long as the tag contains \<^verbatim>\<open>--\<close>, and trims hyphens
  and white space at both ends. The loop ends because every round shortens the tag.

  A tag may hold any bytes. On a string that is not ASCII \<^verbatim>\<open>strings.ToLower\<close> decodes
  UTF-8, maps every code point through the case tables of Unicode and encodes the
  result, writing U+FFFD for every byte that is not UTF-8. The tables are not part of
  the repository, so the lower-casing is the argument \<open>toLower\<close> of \<open>normalizeTag\<close>;
  the callers of this file pass \<open>ToLower\<close>, which is the library on the ASCII tags they
  normalise.
\<close>


function normalizeTag_loop :: "string \<Rightarrow> string" where
  "normalizeTag_loop tag =
     (if Contains tag ''--'' then normalizeTag_loop (ReplaceAll tag ''--'' ''-'') else tag)"
  by pat_completeness auto
termination
  by (relation "measure length") (auto intro: ReplaceAll_shorter)

definition normalizeTag :: "(string \<Rightarrow> string) \<Rightarrow> string \<Rightarrow> string" where
  "normalizeTag toLower tag =
     Trim (normalizeTag_loop (ReplaceAll (ReplaceAll (toLower tag) '' '' ''-'') ''_'' ''-''))
       [CHR ''-'', CHR '' '', CHR 0x09, CHR 0x0A, CHR 0x0D]"

declare normalizeTag_loop.simps [simp del]

lemma normalizeTag_loop_clean: "\<not> Contains (normalizeTag_loop s) ''--''"
  by (induction s rule: normalizeTag_loop.induct) (subst normalizeTag_loop.simps, auto)

lemma normalizeTag_loop_id: "\<not> Contains s ''--'' \<Longrightarrow> normalizeTag_loop s = s"
  by (subst normalizeTag_loop.simps) simp

lemma set_normalizeTag_loop: "set (normalizeTag_loop s) \<subseteq> set s"
proof (induction s rule: normalizeTag_loop.induct)
  case (1 tag)
  show ?case
  proof (cases "Contains tag ''--''")
    case True
    then have "CHR ''-'' \<in> set tag" by (auto simp: Contains_iff)
    moreover have "set (ReplaceAll tag ''--'' ''-'') \<subseteq> set tag \<union> set ''-''"
      by (rule set_ReplaceAll) simp
    ultimately show ?thesis using "1.IH"[OF True] True
      by (subst normalizeTag_loop.simps) auto
  next
    case False
    then show ?thesis by (subst normalizeTag_loop.simps) simp
  qed
qed

lemma TrimLeft_decomp: "\<exists>ps. s = ps @ TrimLeft s cs"
  unfolding TrimLeft_def by (metis takeWhile_dropWhile_id)

lemma TrimRight_decomp: "\<exists>ss. s = TrimRight s cs @ ss"
proof -
  have "rev s = takeWhile (\<lambda>c. c \<in> set cs) (rev s) @ dropWhile (\<lambda>c. c \<in> set cs) (rev s)"
    by simp
  then have "s = rev (dropWhile (\<lambda>c. c \<in> set cs) (rev s)) @ rev (takeWhile (\<lambda>c. c \<in> set cs) (rev s))"
    by (metis rev_append rev_rev_ident)
  then show ?thesis unfolding TrimRight_def by blast
qed

lemma Trim_decomp: "\<exists>ps ss. s = ps @ Trim s cs @ ss"
proof -
  obtain ps where a: "s = ps @ TrimLeft s cs" using TrimLeft_decomp by blast
  obtain ss where b: "TrimLeft s cs = TrimRight (TrimLeft s cs) cs @ ss" using TrimRight_decomp by blast
  from a b have "s = ps @ Trim s cs @ ss" by (simp add: Trim_def)
  then show ?thesis by blast
qed

lemma set_Trim: "set (Trim s cs) \<subseteq> set s"
proof -
  obtain ps ss where e: "s = ps @ Trim s cs @ ss" using Trim_decomp by blast
  have "set (Trim s cs) \<subseteq> set (ps @ Trim s cs @ ss)" by auto
  with e show ?thesis by simp
qed

lemma Contains_Trim: "Contains (Trim s cs) sub \<Longrightarrow> Contains s sub"
proof -
  assume "Contains (Trim s cs) sub"
  then obtain qs rs where t: "Trim s cs = qs @ sub @ rs" by (auto simp: Contains_iff)
  obtain ps ss where e: "s = ps @ Trim s cs @ ss" using Trim_decomp by blast
  from e t have "s = (ps @ qs) @ sub @ (rs @ ss)" by simp
  then show ?thesis unfolding Contains_iff by blast
qed

lemma TrimLeft_hd: "TrimLeft s cs \<noteq> [] \<Longrightarrow> hd (TrimLeft s cs) \<notin> set cs"
  unfolding TrimLeft_def using hd_dropWhile by metis

lemma TrimRight_idem: "TrimRight (TrimRight s cs) cs = TrimRight s cs"
  by (simp add: TrimRight_def)

lemma TrimLeft_id: "s = [] \<or> hd s \<notin> set cs \<Longrightarrow> TrimLeft s cs = s"
  unfolding TrimLeft_def by (cases s) auto

lemma Trim_idem: "Trim (Trim s cs) cs = Trim s cs"
proof -
  let ?l = "TrimLeft s cs"
  let ?t = "TrimRight ?l cs"
  obtain ss where d: "?l = ?t @ ss" using TrimRight_decomp by blast
  have "?t = [] \<or> hd ?t \<notin> set cs"
  proof (cases "?t = []")
    case True
    then show ?thesis by simp
  next
    case False
    with d have "hd ?t = hd ?l" by (metis hd_append2)
    moreover from False d have "?l \<noteq> []" by auto
    ultimately show ?thesis using TrimLeft_hd by metis
  qed
  then have "TrimLeft ?t cs = ?t" by (rule TrimLeft_id)
  then show ?thesis by (simp add: Trim_def TrimRight_idem)
qed


subsection \<open>Separators and the pieces between them\<close>

text \<open>
  The bytes that \<open>normalizeTag\<close> replaces, removes or trims are six ASCII bytes. None
  of them is a letter and, being ASCII, each is a code point of its own wherever it
  stands in a string, also next to bytes that are not UTF-8. The pieces of a string
  are what lies between its separators.
\<close>

definition isSeparator :: "char \<Rightarrow> bool" where
  "isSeparator c = (c \<in> set [CHR ''-'', CHR '' '', CHR ''_'', CHR 0x09, CHR 0x0A, CHR 0x0D])"

fun pieces :: "string \<Rightarrow> string list" where
  "pieces [] = [[]]"
| "pieces (c # cs) =
     (if isSeparator c then [] # pieces cs
      else (case pieces cs of [] \<Rightarrow> [[c]] | p # ps \<Rightarrow> (c # p) # ps))"

lemma pieces_nonempty: "pieces s \<noteq> []"
  by (induction s) (auto split: list.splits)

lemma pieces_plain: "\<not> list_ex isSeparator w \<Longrightarrow> pieces w = [w]"
  by (induction w) auto

lemma pieces_append_separator:
  "isSeparator c \<Longrightarrow> pieces (a @ c # z) = pieces a @ pieces z"
proof (induction a)
  case Nil
  then show ?case by simp
next
  case (Cons x a)
  then show ?case using pieces_nonempty[of a] by (cases "pieces a") auto
qed

lemma pieces_plain_prefix:
  "\<not> list_ex isSeparator w \<Longrightarrow> isSeparator c \<Longrightarrow> pieces (w @ c # z) = w # pieces z"
  by (simp add: pieces_append_separator pieces_plain)

lemma first_separator_unique:
  assumes "\<not> list_ex isSeparator u" "\<not> list_ex isSeparator v" "isSeparator c" "isSeparator d"
    and "u @ c # x = v @ d # y"
  shows "u = v \<and> x = y"
  using assms
proof (induction u arbitrary: v)
  case Nil
  then show ?case by (cases v) auto
next
  case (Cons a u)
  then show ?case by (cases v) auto
qed

lemma separator_split:
  "list_ex isSeparator s \<Longrightarrow>
   \<exists>w c z. s = w @ c # z \<and> \<not> list_ex isSeparator w \<and> isSeparator c"
proof -
  assume "list_ex isSeparator s"
  then have "dropWhile (\<lambda>c. \<not> isSeparator c) s \<noteq> []"
    by (auto simp: list_ex_iff dropWhile_eq_Nil_conv)
  then obtain c z where d: "dropWhile (\<lambda>c. \<not> isSeparator c) s = c # z"
    by (cases "dropWhile (\<lambda>c. \<not> isSeparator c) s") auto
  then have "isSeparator c" using hd_dropWhile[of "\<lambda>c. \<not> isSeparator c" s] by auto
  moreover have "s = takeWhile (\<lambda>c. \<not> isSeparator c) s @ c # z"
    using d takeWhile_dropWhile_id[of "\<lambda>c. \<not> isSeparator c" s] by simp
  moreover have "\<not> list_ex isSeparator (takeWhile (\<lambda>c. \<not> isSeparator c) s)"
    by (auto simp: list_ex_iff dest: set_takeWhileD)
  ultimately show ?thesis by blast
qed

text \<open>
  A lower-casing that works separator by separator fixes a string exactly when it
  fixes every piece of it.
\<close>

lemma fixed_iff_pieces_fixed:
  assumes empty: "toLower [] = []"
    and split: "\<And>xs c ys. isSeparator c \<Longrightarrow> toLower (xs @ c # ys) = toLower xs @ c # toLower ys"
    and keeps: "\<And>s. \<not> list_ex isSeparator s \<Longrightarrow> \<not> list_ex isSeparator (toLower s)"
  shows "toLower s = s \<longleftrightarrow> (\<forall>p\<in>set (pieces s). toLower p = p)"
proof (induction s rule: length_induct)
  case (1 s)
  show ?case
  proof (cases "list_ex isSeparator s")
    case False
    then show ?thesis by (simp add: pieces_plain)
  next
    case True
    from separator_split[OF True] obtain w c z where
      s: "s = w @ c # z" and w: "\<not> list_ex isSeparator w" and c: "isSeparator c"
      by blast
    from s have "length z < length s" by simp
    with 1 have IH: "toLower z = z \<longleftrightarrow> (\<forall>p\<in>set (pieces z). toLower p = p)" by blast
    have "toLower s = s \<longleftrightarrow> toLower w @ c # toLower z = w @ c # z"
      by (simp add: s split[OF c])
    also have "\<dots> \<longleftrightarrow> toLower w = w \<and> toLower z = z"
      using first_separator_unique[OF keeps[OF w] w c c] by auto
    also have "\<dots> \<longleftrightarrow> (\<forall>p\<in>set (pieces s). toLower p = p)"
      using IH by (simp add: s pieces_plain_prefix[OF w c])
    finally show ?thesis .
  qed
qed

subsection \<open>The steps of normalizeTag do not make new pieces\<close>

definition separatorMap :: "char \<Rightarrow> char \<Rightarrow> char \<Rightarrow> char" where
  "separatorMap c d x = (if x = c then d else x)"

lemma ReplaceAll_single: "ReplaceAll s [c] [d] = map (separatorMap c d) s"
proof (induction s)
  case Nil
  then show ?case by (subst ReplaceAll.simps) simp
next
  case (Cons x xs)
  then show ?case by (subst ReplaceAll.simps) (simp add: HasPrefix_def separatorMap_def)
qed

lemma pieces_map_separator:
  "isSeparator c \<Longrightarrow> isSeparator d \<Longrightarrow> pieces (map (separatorMap c d) s) = pieces s"
  by (induction s) (auto simp: separatorMap_def)

lemma pieces_ReplaceAll_single:
  "isSeparator c \<Longrightarrow> isSeparator d \<Longrightarrow> pieces (ReplaceAll s [c] [d]) = pieces s"
  by (simp add: ReplaceAll_single pieces_map_separator)

lemma isSeparator_hyphen: "isSeparator CHR ''-''"
  by (simp add: isSeparator_def)

lemma pieces_collapse_step:
  "\<not> list_ex isSeparator pre \<Longrightarrow>
   set (pieces (pre @ ReplaceAll s ''--'' ''-'')) \<subseteq> set (pieces (pre @ s)) \<union> {[]}"
proof (induction s "''--''" "''-''" arbitrary: pre rule: ReplaceAll.induct)
  case (1 s)
  show ?case
  proof (cases "s = []")
    case True
    then show ?thesis by (subst ReplaceAll.simps) auto
  next
    case ne: False
    show ?thesis
    proof (cases "HasPrefix s ''--''")
      case True
      then obtain r where s: "s = CHR ''-'' # CHR ''-'' # r"
        by (auto simp: HasPrefix_iff)
      have r: "ReplaceAll (CHR ''-'' # CHR ''-'' # r) ''--'' ''-'' = CHR ''-'' # ReplaceAll r ''--'' ''-''"
        using True s by (subst ReplaceAll.simps) simp
      have "set (pieces ([] @ ReplaceAll (drop (length ''--'') s) ''--'' ''-''))
              \<subseteq> set (pieces ([] @ drop (length ''--'') s)) \<union> {[]}"
        using ne True by (intro "1.hyps"(1)) simp_all
      then have "set (pieces (ReplaceAll r ''--'' ''-'')) \<subseteq> set (pieces r) \<union> {[]}"
        by (simp add: s)
      then show ?thesis
        using "1.prems" by (auto simp: r s pieces_plain_prefix isSeparator_hyphen)
    next
      case False
      from ne obtain c r where s: "s = c # r" by (cases s) auto
      have r: "ReplaceAll (c # r) ''--'' ''-'' = c # ReplaceAll r ''--'' ''-''"
        using False s by (subst ReplaceAll.simps) simp
      show ?thesis
      proof (cases "isSeparator c")
        case True
        have "set (pieces ([] @ ReplaceAll (tl s) ''--'' ''-'')) \<subseteq> set (pieces ([] @ tl s)) \<union> {[]}"
          using ne False by (intro "1.hyps"(2)) simp_all
        then have "set (pieces (ReplaceAll r ''--'' ''-'')) \<subseteq> set (pieces r) \<union> {[]}"
          by (simp add: s)
        then show ?thesis
          using "1.prems" True by (auto simp: s r pieces_plain_prefix)
      next
        case plain: False
        with "1.prems" have pre: "\<not> list_ex isSeparator (pre @ [c])" by simp
        have "set (pieces ((pre @ [c]) @ ReplaceAll (tl s) ''--'' ''-''))
                \<subseteq> set (pieces ((pre @ [c]) @ tl s)) \<union> {[]}"
          using ne False pre by (intro "1.hyps"(2)) simp_all
        then show ?thesis by (simp add: s r)
      qed
    qed
  qed
qed

lemma pieces_normalizeTag_loop: "set (pieces (normalizeTag_loop s)) \<subseteq> set (pieces s) \<union> {[]}"
proof (induction s rule: normalizeTag_loop.induct)
  case (1 tag)
  show ?case
  proof (cases "Contains tag ''--''")
    case True
    from pieces_collapse_step[of "[]" tag]
    have "set (pieces (ReplaceAll tag ''--'' ''-'')) \<subseteq> set (pieces tag) \<union> {[]}" by simp
    with "1.IH"[OF True] True show ?thesis
      by (subst normalizeTag_loop.simps) auto
  next
    case False
    then show ?thesis by (subst normalizeTag_loop.simps) auto
  qed
qed

lemma pieces_drop_separators:
  "list_all isSeparator ps \<Longrightarrow> set (pieces s) \<subseteq> set (pieces (ps @ s)) \<union> {[]}"
  by (induction ps) auto

lemma pieces_drop_trailing_separators:
  "list_all isSeparator ss \<Longrightarrow> set (pieces s) \<subseteq> set (pieces (s @ ss)) \<union> {[]}"
  by (cases ss) (auto simp: pieces_append_separator)

lemma TrimLeft_removed:
  "\<exists>ps. s = ps @ TrimLeft s cs \<and> list_all (\<lambda>c. c \<in> set cs) ps"
proof -
  have "s = takeWhile (\<lambda>c. c \<in> set cs) s @ TrimLeft s cs"
    by (simp add: TrimLeft_def)
  moreover have "list_all (\<lambda>c. c \<in> set cs) (takeWhile (\<lambda>c. c \<in> set cs) s)"
    by (auto simp: list_all_iff dest: set_takeWhileD)
  ultimately show ?thesis by blast
qed

lemma TrimRight_removed:
  "\<exists>ss. s = TrimRight s cs @ ss \<and> list_all (\<lambda>c. c \<in> set cs) ss"
proof -
  let ?t = "takeWhile (\<lambda>c. c \<in> set cs) (rev s)"
  have "rev s = ?t @ dropWhile (\<lambda>c. c \<in> set cs) (rev s)" by simp
  then have "s = rev (dropWhile (\<lambda>c. c \<in> set cs) (rev s)) @ rev ?t"
    by (metis rev_append rev_rev_ident)
  then have "s = TrimRight s cs @ rev ?t" by (simp add: TrimRight_def)
  moreover have "list_all (\<lambda>c. c \<in> set cs) (rev ?t)"
    by (auto simp: list_all_iff dest: set_takeWhileD)
  ultimately show ?thesis by blast
qed

lemma pieces_Trim:
  assumes "list_all isSeparator cs"
  shows "set (pieces (Trim s cs)) \<subseteq> set (pieces s) \<union> {[]}"
proof -
  from assms have sep: "\<And>xs. list_all (\<lambda>c. c \<in> set cs) xs \<Longrightarrow> list_all isSeparator xs"
    by (auto simp: list_all_iff)
  obtain ps where l: "s = ps @ TrimLeft s cs" and ps: "list_all (\<lambda>c. c \<in> set cs) ps"
    using TrimLeft_removed by blast
  obtain ss where r: "TrimLeft s cs = Trim s cs @ ss" and ss: "list_all (\<lambda>c. c \<in> set cs) ss"
    using TrimRight_removed[of "TrimLeft s cs" cs] by (auto simp: Trim_def)
  have "set (pieces (Trim s cs)) \<subseteq> set (pieces (Trim s cs @ ss)) \<union> {[]}"
    by (rule pieces_drop_trailing_separators[OF sep[OF ss]])
  also have "\<dots> = set (pieces (TrimLeft s cs)) \<union> {[]}" using r by simp
  also have "\<dots> \<subseteq> set (pieces (ps @ TrimLeft s cs)) \<union> {[]}"
    using pieces_drop_separators[OF sep[OF ps], of "TrimLeft s cs"] by auto
  finally show ?thesis using l by simp
qed



subsection \<open>Idempotence\<close>

lemma toLowerByte_not_upper: "\<not> isUpperByte (toLowerByte c)"
  by (auto simp: toLowerByte_def isUpperByte_def less_eq_char_def)

lemma ToLower_id: "\<forall>c\<in>set s. \<not> isUpperByte c \<Longrightarrow> ToLower s = s"
  by (induction s) (auto simp: ToLower_def toLowerByte_def)

lemma normalizeTag_examples:
  "normalizeTag ToLower ''Machine Learning'' = ''machine-learning''"
  "normalizeTag ToLower ''social_media'' = ''social-media''"
  "normalizeTag ToLower ''foo--bar---baz'' = ''foo-bar-baz''"
  by code_simp+

text \<open>
  Claim C10. \<^verbatim>\<open>normalizeTag\<close> is idempotent: normalising a tag that is already
  normalised gives the same tag, for every string of bytes. The proof uses four facts
  about the lower-casing, all of which \<^verbatim>\<open>strings.ToLower\<close> has: the empty string stays
  empty; lower-casing twice is lower-casing once; a separator is a code point of its
  own, which the tables leave alone, so the string is lower-cased on either side of
  it; and no letter becomes a separator.
\<close>

theorem C10_normalizeTag_idempotent:
  assumes empty: "toLower [] = []"
    and idem: "\<And>s. toLower (toLower s) = toLower s"
    and split: "\<And>xs c ys. isSeparator c \<Longrightarrow> toLower (xs @ c # ys) = toLower xs @ c # toLower ys"
    and keeps: "\<And>s. \<not> list_ex isSeparator s \<Longrightarrow> \<not> list_ex isSeparator (toLower s)"
  shows "normalizeTag toLower (normalizeTag toLower t) = normalizeTag toLower t"
proof -
  let ?cs = "[CHR ''-'', CHR '' '', CHR 0x09, CHR 0x0A, CHR 0x0D]"
  let ?a = "ReplaceAll (toLower t) '' '' ''-''"
  let ?b = "ReplaceAll ?a ''_'' ''-''"
  let ?c = "normalizeTag_loop ?b"
  let ?y = "Trim ?c ?cs"
  have y: "normalizeTag toLower t = ?y" by (simp add: normalizeTag_def)
  have sb: "set ?b \<subseteq> set ?a \<union> {CHR ''-''}"
    using set_ReplaceAll[of "''_''" ?a "''-''"] by simp
  have sy: "set ?y \<subseteq> set ?b"
    using set_Trim[of ?c ?cs] set_normalizeTag_loop[of ?b] by blast
  have nsp_a: "CHR '' '' \<notin> set ?a" by (rule ReplaceAll_single_gone) simp
  have nus_b: "CHR ''_'' \<notin> set ?b" by (rule ReplaceAll_single_gone) simp
  from nsp_a sb have nsp_b: "CHR '' '' \<notin> set ?b" by auto
  have pa: "pieces ?a = pieces (toLower t)"
    by (rule pieces_ReplaceAll_single) (simp_all add: isSeparator_def)
  have pb: "pieces ?b = pieces ?a"
    by (rule pieces_ReplaceAll_single) (simp_all add: isSeparator_def)
  have pc: "set (pieces ?c) \<subseteq> set (pieces ?b) \<union> {[]}"
    by (rule pieces_normalizeTag_loop)
  have py: "set (pieces ?y) \<subseteq> set (pieces ?c) \<union> {[]}"
    by (rule pieces_Trim) (simp add: isSeparator_def)
  have "\<forall>p\<in>set (pieces (toLower t)). toLower p = p"
    using fixed_iff_pieces_fixed[of toLower "toLower t", OF empty split keeps] idem by simp
  with pa pb pc py empty have "\<forall>p\<in>set (pieces ?y). toLower p = p" by auto
  then have 1: "toLower ?y = ?y"
    using fixed_iff_pieces_fixed[of toLower ?y, OF empty split keeps] by simp
  have 2: "ReplaceAll ?y '' '' ''-'' = ?y"
    using nsp_b sy by (intro ReplaceAll_absent) (auto simp: Contains_single)
  have 3: "ReplaceAll ?y ''_'' ''-'' = ?y"
    using nus_b sy by (intro ReplaceAll_absent) (auto simp: Contains_single)
  have 4: "normalizeTag_loop ?y = ?y"
    using normalizeTag_loop_clean[of ?b] Contains_Trim[of ?c ?cs "''--''"]
    by (intro normalizeTag_loop_id) blast
  have "normalizeTag toLower ?y = Trim ?y ?cs"
    unfolding normalizeTag_def[of toLower ?y] by (simp only: 1 2 3 4)
  then show ?thesis by (simp only: y Trim_idem)
qed

text \<open>
  The lower-casing of ASCII text has the four properties, so that \<open>normalizeTag\<close>
  is idempotent on every string when the library takes its ASCII path.
\<close>

lemma toLowerByte_separator: "isSeparator c \<Longrightarrow> toLowerByte c = c"
  by (auto simp: isSeparator_def toLowerByte_def isUpperByte_def less_eq_char_def)

lemma toLowerByte_no_new_separator: "isSeparator (toLowerByte c) \<Longrightarrow> isSeparator c"
proof (cases "isUpperByte c")
  case False
  assume "isSeparator (toLowerByte c)"
  with False show ?thesis by (simp add: toLowerByte_def)
next
  case True
  assume sep: "isSeparator (toLowerByte c)"
  from True have "97 \<le> (of_char (toLowerByte c) :: nat)"
    by (simp add: toLowerByte_def isUpperByte_def less_eq_char_def)
  moreover from sep have "(of_char (toLowerByte c) :: nat) \<le> 95"
    by (auto simp: isSeparator_def)
  ultimately show ?thesis by simp
qed

lemma ToLower_idem: "ToLower (ToLower s) = ToLower s"
  by (rule ToLower_id) (simp add: ToLower_def toLowerByte_not_upper)

lemma ToLower_split: "isSeparator c \<Longrightarrow> ToLower (xs @ c # ys) = ToLower xs @ c # ToLower ys"
  by (simp add: ToLower_def toLowerByte_separator)

lemma ToLower_keeps: "\<not> list_ex isSeparator s \<Longrightarrow> \<not> list_ex isSeparator (ToLower s)"
  by (auto simp: list_ex_iff ToLower_def dest: toLowerByte_no_new_separator)

theorem C10_normalizeTag_idempotent_witness:
  "\<forall>t. normalizeTag ToLower (normalizeTag ToLower t) = normalizeTag ToLower t"
proof
  fix t
  have e: "ToLower [] = []" by (simp add: ToLower_def)
  show "normalizeTag ToLower (normalizeTag ToLower t) = normalizeTag ToLower t"
    by (rule C10_normalizeTag_idempotent [OF e ToLower_idem ToLower_split ToLower_keeps])
qed

section \<open>Slugs\<close>

text \<open>
  Package \<^verbatim>\<open>slug\<close>. \<^verbatim>\<open>transliterate\<close> runs the string through Unicode
  decomposition, drops the nonspacing marks and recomposes; all three steps leave an
  ASCII string as it is, and what they do to any other string is the parameter
  \<open>unicode\<close>. The regular expression \<^verbatim>\<open>[^a-z0-9-]+\<close> replaced by the empty string
  keeps exactly the bytes \<^verbatim>\<open>a-z\<close>, \<^verbatim>\<open>0-9\<close> and \<^verbatim>\<open>-\<close>; \<^verbatim>\<open>-+\<close> replaced by \<^verbatim>\<open>-\<close>
  turns every run of hyphens into one hyphen.
\<close>

definition isASCII :: "string \<Rightarrow> bool" where
  "isASCII s = list_all (\<lambda>c. (of_char c :: nat) < 128) s"

definition transliterate :: "(string \<Rightarrow> string) \<Rightarrow> string \<Rightarrow> string" where
  "transliterate unicode s = (if isASCII s then s else unicode s)"

definition isSlugByte :: "char \<Rightarrow> bool" where
  "isSlugByte c =
     ((CHR ''a'' \<le> c \<and> c \<le> CHR ''z'') \<or> (CHR ''0'' \<le> c \<and> c \<le> CHR ''9'') \<or> c = CHR ''-'')"

definition removeNonSlug :: "string \<Rightarrow> string" where
  "removeNonSlug s = filter isSlugByte s"

fun squeezeHyphens :: "string \<Rightarrow> string" where
  "squeezeHyphens (c # d # cs) =
     (if c = CHR ''-'' \<and> d = CHR ''-'' then squeezeHyphens (d # cs)
      else c # squeezeHyphens (d # cs))"
| "squeezeHyphens cs = cs"

definition Generate :: "(string \<Rightarrow> string) \<Rightarrow> string \<Rightarrow> string" where
  "Generate unicode s =
     (if s = [] then []
      else
        let s1 = ToLower s;
            s2 = transliterate unicode s1;
            s3 = ReplaceAll s2 '' '' ''-'';
            s4 = ReplaceAll s3 ''_'' ''-'';
            s5 = removeNonSlug s4;
            s6 = squeezeHyphens s5;
            s7 = Trim s6 ''-''
        in if length s7 > 100 then TrimRight (take 100 s7) ''-'' else s7)"

lemma TrimRight_last: "TrimRight s cs = [] \<or> last (TrimRight s cs) \<notin> set cs"
proof (cases "dropWhile (\<lambda>c. c \<in> set cs) (rev s)")
  case Nil
  then show ?thesis by (simp add: TrimRight_def)
next
  case (Cons a as)
  then have "a \<notin> set cs" using hd_dropWhile[of "\<lambda>c. c \<in> set cs" "rev s"] by auto
  with Cons show ?thesis by (simp add: TrimRight_def)
qed

lemma HasSuffix_single: "HasSuffix s [c] \<longleftrightarrow> s \<noteq> [] \<and> last s = c"
proof (cases s rule: rev_cases)
  case Nil
  then show ?thesis by (simp add: HasSuffix_def)
next
  case (snoc ys y)
  then show ?thesis by (auto simp: HasSuffix_def)
qed

lemma TrimRight_no_suffix: "c \<in> set cs \<Longrightarrow> \<not> HasSuffix (TrimRight s cs) [c]"
  using TrimRight_last[of s cs] by (auto simp: HasSuffix_single)

lemma length_TrimRight: "length (TrimRight s cs) \<le> length s"
  unfolding TrimRight_def by (metis length_dropWhile_le length_rev)

text \<open>
  Claim C8. For every input the slug has at most 100 characters and does not end in
  a hyphen, also when the cut at 100 characters leaves a hyphen at the end; and the
  slug of \<^verbatim>\<open>Hello World\<close> is \<^verbatim>\<open>hello-world\<close>.
\<close>

theorem C8_Generate_length_and_hyphen:
  "length (Generate unicode s) \<le> 100 \<and> \<not> HasSuffix (Generate unicode s) ''-''
   \<and> Generate unicode ''Hello World'' = ''hello-world''"
proof (intro conjI)
  show "length (Generate unicode s) \<le> 100"
    using length_TrimRight[of "take 100 (Trim (squeezeHyphens (removeNonSlug (ReplaceAll (ReplaceAll (transliterate unicode (ToLower s)) '' '' ''-'') ''_'' ''-''))) ''-'')" "''-''"]
    by (simp add: Generate_def Let_def)
  show "\<not> HasSuffix (Generate unicode s) ''-''"
    by (simp add: Generate_def Let_def Trim_def TrimRight_no_suffix) (simp add: HasSuffix_def)
  show "Generate unicode ''Hello World'' = ''hello-world''"
    by code_simp
qed

section \<open>Data model\<close>

text \<open>
  The structs of package \<^verbatim>\<open>models\<close>. A \<^verbatim>\<open>time.Time\<close> is a point on the time line,
  counted in seconds; Go's \<^verbatim>\<open>int\<close> and \<^verbatim>\<open>int64\<close> are integers (no claim depends on
  their overflow), and a \<^verbatim>\<open>float64\<close> score is the real number it stands for: the
  scores are short sums of constants with at most two decimals, which rounding moves
  by far less than the distance between two such sums. The fields \<open>FilePath\<close> and \<open>Slug\<close>
  of an image and \<open>Slug\<close> of a scrape are the ones package \<^verbatim>\<open>db\<close> reads.
\<close>

type_synonym time = int

record GPSData =
  Latitude :: real
  Longitude :: real
  Altitude :: real

record EXIFData =
  DateTime :: string
  DateTimeOriginal :: string
  Make :: string
  Model :: string
  Copyright :: string
  Artist :: string
  Software :: string
  ImageDescription :: string
  Orientation :: int
  GPS :: "GPSData option"

record ImageInfo =
  ID :: string
  URL :: string
  AltText :: string
  Summary :: string
  Tags :: "string list"
  Base64Data :: string
  ScraperUUID :: string
  TombstoneDatetime :: "time option"
  Width :: int
  Height :: int
  FileSizeBytes :: int
  ContentType :: string
  EXIF :: "EXIFData option"
  FilePath :: string
  Slug :: string

section \<open>Go strings: fields\<close>

definition isSpaceByte :: "char \<Rightarrow> bool" where
  "isSpaceByte c = (c \<in> set [CHR 0x09, CHR 0x0A, CHR 0x0B, CHR 0x0C, CHR 0x0D, CHR '' ''])"

text \<open>\<^verbatim>\<open>strings.Fields\<close>: the maximal runs of bytes that are not white space.\<close>

fun fieldsFrom :: "string \<Rightarrow> string \<Rightarrow> string list" where
  "fieldsFrom cur [] = (if cur = [] then [] else [cur])"
| "fieldsFrom cur (c # cs) =
     (if isSpaceByte c then (if cur = [] then fieldsFrom [] cs else cur # fieldsFrom [] cs)
      else fieldsFrom (cur @ [c]) cs)"

definition Fields :: "string \<Rightarrow> string list" where
  "Fields s = fieldsFrom [] s"

section \<open>Image relevance\<close>

text \<open>
  \<^verbatim>\<open>scoreImageRelevance\<close> starts from 0.5 and updates the score in six steps, in the
  order of the source: dimensions (size, aspect ratio, banner sizes), position, the
  tags one after the other, alternative text, summary, and the clamp to \<open>[0, 1]\<close>.
  Each step below takes the score so far and returns the updated score.
\<close>

definition scoreDimensions :: "ImageInfo \<Rightarrow> real \<Rightarrow> real" where
  "scoreDimensions img score =
     (if Width img > 0 \<and> Height img > 0 then
        let score1 =
              (if Width img \<ge> 800 \<and> Width img \<le> 2000 \<and> Height img \<ge> 400 then score + 0.2
               else if Width img \<ge> 400 \<and> Width img < 800 then score + 0.1
               else if Width img < 200 \<or> Height img < 100 then score - 0.2
               else score);
            aspectRatio = real_of_int (Width img) / real_of_int (Height img);
            score2 =
              (if aspectRatio \<ge> 1.3 \<and> aspectRatio \<le> 2.1 then score1 + 0.1
               else if aspectRatio > 5.0 \<or> aspectRatio < 0.5 then score1 - 0.3
               else if aspectRatio > 3.0 \<or> aspectRatio < 0.7 then score1 - 0.15
               else score1)
        in if (Width img = 728 \<and> Height img = 90) \<or>
              (Width img = 468 \<and> Height img = 60) \<or>
              (Width img = 234 \<and> Height img = 60) \<or>
              (Width img = 120 \<and> Height img = 600) \<or>
              (Width img = 300 \<and> Height img = 250) \<or>
              (Width img = 336 \<and> Height img = 280)
           then score2 - 0.4 else score2
      else score)"

definition scorePosition :: "int \<Rightarrow> int \<Rightarrow> real \<Rightarrow> real" where
  "scorePosition position totalImages score =
     (if totalImages > 0 then
        let positionRatio = real_of_int position / real_of_int totalImages
        in if positionRatio \<le> 0.25 then score + 0.2
           else if positionRatio \<le> 0.5 then score + 0.1
           else if positionRatio > 0.75 then score - 0.1
           else score
      else score)"

definition scoreTag :: "string \<Rightarrow> real \<Rightarrow> real" where
  "scoreTag tag score =
     (let tagLower = ToLower tag;
          score1 =
            (if tagLower = ''banner'' \<or>
                Contains tagLower ''infographic'' \<or>
                Contains tagLower ''chart'' \<or>
                Contains tagLower ''diagram'' \<or>
                Contains tagLower ''graph'' \<or>
                Contains tagLower ''flowchart'' \<or>
                Contains tagLower ''visualization'' \<or>
                Contains tagLower ''data visualization'' \<or>
                Contains tagLower ''statistics''
             then score - 0.4 else score);
          score2 =
            (if Contains tagLower ''icon'' \<or>
                Contains tagLower ''logo'' \<or>
                Contains tagLower ''button'' \<or>
                Contains tagLower ''avatar''
             then score1 - 0.3 else score1)
      in if Contains tagLower ''photo'' \<or>
            Contains tagLower ''photograph'' \<or>
            Contains tagLower ''portrait'' \<or>
            Contains tagLower ''landscape'' \<or>
            Contains tagLower ''person'' \<or>
            Contains tagLower ''people''
         then score2 + 0.1 else score2)"

definition scoreTags :: "string list \<Rightarrow> real \<Rightarrow> real" where
  "scoreTags tags score = foldl (\<lambda>sc tag. scoreTag tag sc) score tags"

definition scoreAltText :: "ImageInfo \<Rightarrow> string \<Rightarrow> string list \<Rightarrow> real \<Rightarrow> real" where
  "scoreAltText img articleTitle articleTags score =
     (if AltText img \<noteq> [] \<and> articleTitle \<noteq> [] then
        let altLower = ToLower (AltText img);
            titleLower = ToLower articleTitle;
            titleWords = Fields titleLower;
            matchCount = length (filter (\<lambda>word. length word > 3 \<and> Contains altLower word) titleWords);
            score1 =
              (if matchCount > 2 then score + 0.15
               else if matchCount > 0 then score + 0.05
               else score)
        in if list_ex (\<lambda>tag. length tag > 3 \<and> Contains altLower (ToLower tag)) articleTags
           then score1 + 0.05 else score1
      else score)"

definition scoreSummary :: "ImageInfo \<Rightarrow> real \<Rightarrow> real" where
  "scoreSummary img score =
     (if Summary img \<noteq> [] then
        let summaryLower = ToLower (Summary img)
        in if Contains summaryLower ''infographic'' \<or>
              Contains summaryLower ''chart'' \<or>
              Contains summaryLower ''diagram'' \<or>
              Contains summaryLower ''graph'' \<or>
              Contains summaryLower ''data visualization''
           then score - 0.3 else score
      else score)"

definition clampScore :: "real \<Rightarrow> real" where
  "clampScore score =
     (let score1 = (if score < 0.0 then 0.0 else score)
      in if score1 > 1.0 then 1.0 else score1)"

definition scoreImageRelevance :: "ImageInfo \<Rightarrow> int \<Rightarrow> int \<Rightarrow> string \<Rightarrow> string list \<Rightarrow> real" where
  "scoreImageRelevance img position totalImages articleTitle articleTags =
     clampScore
       (scoreSummary img
         (scoreAltText img articleTitle articleTags
           (scoreTags (Tags img)
             (scorePosition position totalImages
               (scoreDimensions img 0.5)))))"

text \<open>An image with nothing but the given dimensions and tags.\<close>

definition plainImage :: "int \<Rightarrow> int \<Rightarrow> string list \<Rightarrow> ImageInfo" where
  "plainImage w h tags =
     \<lparr>ID = [], URL = ''https://example.com/photo.jpg'', AltText = [], Summary = [], Tags = tags,
      Base64Data = [], ScraperUUID = [], TombstoneDatetime = None, Width = w, Height = h,
      FileSizeBytes = 0, ContentType = [], EXIF = None, FilePath = [], Slug = []\<rparr>"

subsection \<open>Every step after the position step adds a constant\<close>

lemma scoreTag_shift: "scoreTag tag (score + x) = scoreTag tag score + x"
  by (simp add: scoreTag_def Let_def)

lemma scoreTags_shift: "scoreTags tags (score + x) = scoreTags tags score + x"
  unfolding scoreTags_def
  by (induction tags arbitrary: score) (simp_all add: scoreTag_shift)

lemma scoreAltText_shift:
  "scoreAltText img t ts (score + x) = scoreAltText img t ts score + x"
  by (simp add: scoreAltText_def Let_def)

lemma scoreSummary_shift: "scoreSummary img (score + x) = scoreSummary img score + x"
  by (simp add: scoreSummary_def Let_def)

lemma scorePosition_first: "scorePosition 0 10 score = score + 0.2"
  by (simp add: scorePosition_def)

lemma scorePosition_last: "scorePosition 9 10 score = score + (- 0.1)"
  by (simp add: scorePosition_def)

lemma clampScore_range: "0 \<le> clampScore x \<and> clampScore x \<le> 1"
  by (simp add: clampScore_def Let_def)

lemma clampScore_gap:
  "x < y \<Longrightarrow> clampScore x < clampScore y \<or> clampScore y = 0 \<or> clampScore x = 1"
  by (auto simp: clampScore_def Let_def)

lemma clampScore_mono: "x \<le> y \<Longrightarrow> clampScore x \<le> clampScore y"
  by (auto simp: clampScore_def Let_def)

definition afterPosition :: "ImageInfo \<Rightarrow> string \<Rightarrow> string list \<Rightarrow> real \<Rightarrow> real" where
  "afterPosition img t ts score = scoreSummary img (scoreAltText img t ts (scoreTags (Tags img) score))"

lemma afterPosition_shift: "afterPosition img t ts (score + x) = afterPosition img t ts score + x"
  by (simp add: afterPosition_def scoreTags_shift scoreAltText_shift scoreSummary_shift)

lemma scoreImageRelevance_first:
  "scoreImageRelevance img 0 10 t ts = clampScore (afterPosition img t ts (scoreDimensions img 0.5) + 0.2)"
  by (simp only: scoreImageRelevance_def scorePosition_first afterPosition_def scoreTags_shift scoreAltText_shift scoreSummary_shift)

lemma scoreImageRelevance_last:
  "scoreImageRelevance img 9 10 t ts = clampScore (afterPosition img t ts (scoreDimensions img 0.5) + (- 0.1))"
  by (simp only: scoreImageRelevance_def scorePosition_last afterPosition_def scoreTags_shift scoreAltText_shift scoreSummary_shift)

text \<open>
  Claim C1. Whatever the image, the position, the number of images, the title and the
  tag list, the relevance score lies in \<open>[0, 1]\<close>.
\<close>

theorem C1_scoreImageRelevance_range:
  "0 \<le> scoreImageRelevance img position totalImages articleTitle articleTags
   \<and> scoreImageRelevance img position totalImages articleTitle articleTags \<le> 1"
  unfolding scoreImageRelevance_def by (rule clampScore_range)

text \<open>
  Claim C4, as stated: the first of ten positions scores strictly higher than the last
  for every image. It fails for an image tagged \<^verbatim>\<open>infographic\<close> and \<^verbatim>\<open>chart\<close>: both
  scores are clamped to 0.
\<close>

theorem C4_position_counterexample:
  "\<not> (scoreImageRelevance (plainImage 0 0 [''infographic'', ''chart'']) 9 10 ''Article'' []
       < scoreImageRelevance (plainImage 0 0 [''infographic'', ''chart'']) 0 10 ''Article'' [])"
  by (simp add: scoreImageRelevance_def plainImage_def scorePosition_def scoreDimensions_def scoreTags_def scoreTag_def scoreAltText_def scoreSummary_def clampScore_def Let_def ToLower_def toLowerByte_def isUpperByte_def Contains_def HasPrefix_def)

text \<open>
  Claim C4, amended. The score at position 0 of 10 is never below the score of the same
  image at position 9 of 10, and it is strictly greater unless the clamp hides the
  difference: the score at position 0 is 0, or the score at position 9 is 1.
\<close>

theorem C4_position_bias:
  "scoreImageRelevance img 9 10 t ts \<le> scoreImageRelevance img 0 10 t ts
   \<and> (scoreImageRelevance img 9 10 t ts < scoreImageRelevance img 0 10 t ts
      \<or> scoreImageRelevance img 0 10 t ts = 0
      \<or> scoreImageRelevance img 9 10 t ts = 1)"
proof -
  let ?r = "afterPosition img t ts (scoreDimensions img 0.5)"
  have lt: "?r + (- 0.1) < ?r + 0.2" by simp
  show ?thesis
    unfolding scoreImageRelevance_first scoreImageRelevance_last
    using clampScore_gap[OF lt] clampScore_mono[of "?r + (- 0.1)" "?r + 0.2"] by auto
qed

section \<open>Go strings: splitting and counting\<close>

lemma Index_bound: "0 \<le> Index s sub \<Longrightarrow> nat (Index s sub) + length sub \<le> length s"
proof (induction s)
  case Nil
  then show ?case by (auto split: if_splits)
next
  case (Cons c cs)
  show ?case
  proof (cases "HasPrefix (c # cs) sub")
    case True
    then show ?thesis by (simp add: HasPrefix_def)
  next
    case False
    with Cons.prems have "0 \<le> Index cs sub" by (auto simp: Let_def split: if_splits)
    with Cons.IH False show ?thesis by (auto simp: Let_def nat_add_distrib)
  qed
qed

text \<open>
  \<^verbatim>\<open>strings.Split\<close> cuts at every occurrence of the separator, from left to right; with
  an empty separator it cuts after every character.
\<close>

function Split :: "string \<Rightarrow> string \<Rightarrow> string list" where
  "Split s sep =
     (if sep = [] then map (\<lambda>c. [c]) s
      else if Index s sep < 0 then [s]
      else take (nat (Index s sep)) s # Split (drop (nat (Index s sep) + length sep) s) sep)"
  by pat_completeness auto
termination
proof (relation "measure (\<lambda>(s, sep). length s)")
  show "wf (measure (\<lambda>(s, sep). length s))" by simp
next
  fix s sep :: string
  assume sep: "sep \<noteq> []" and i: "\<not> Index s sep < 0"
  then have "nat (Index s sep) + length sep \<le> length s" by (intro Index_bound) simp
  with sep show "((drop (nat (Index s sep) + length sep) s, sep), (s, sep)) \<in> measure (\<lambda>(s, sep). length s)"
    by (cases sep) auto
qed

declare Split.simps [simp del]

text \<open>\<^verbatim>\<open>strings.Cut\<close>: the text before and after the first separator, and whether it occurs.\<close>

definition Cut :: "string \<Rightarrow> string \<Rightarrow> string \<times> string \<times> bool" where
  "Cut s sep =
     (if 0 \<le> Index s sep
      then (take (nat (Index s sep)) s, drop (nat (Index s sep) + length sep) s, True)
      else (s, [], False))"

text \<open>\<^verbatim>\<open>strings.LastIndex\<close> for a separator of one byte.\<close>

definition LastIndexByte :: "string \<Rightarrow> char \<Rightarrow> int" where
  "LastIndexByte s c =
     (if c \<in> set s then int (length s) - 1 - int (length (takeWhile (\<lambda>d. d \<noteq> c) (rev s))) else - 1)"

definition isDigitByte :: "char \<Rightarrow> bool" where
  "isDigitByte c = (CHR ''0'' \<le> c \<and> c \<le> CHR ''9'')"

definition isLetterByte :: "char \<Rightarrow> bool" where
  "isLetterByte c = ((CHR ''a'' \<le> c \<and> c \<le> CHR ''z'') \<or> (CHR ''A'' \<le> c \<and> c \<le> CHR ''Z''))"

section \<open>Errors\<close>

text \<open>A Go \<^verbatim>\<open>error\<close> is its message.\<close>

datatype error = Err string

section \<open>URLs\<close>

text \<open>
  \<^verbatim>\<open>url.Parse\<close> belongs to Go's library, not to the scraper. The scraper's functions
  take the parser as their first argument \<open>parse\<close>, and the theorems about all URLs hold
  for every parser. \<open>url_Parse\<close> below follows the library for the evaluation at
  concrete URLs: it cuts the fragment, the scheme, the query and the authority as
  \<^verbatim>\<open>net/url\<close> does, checks control bytes, the port, the bytes of the host and the
  percent escapes, and decodes the path. A host written as a bracketed IP literal is
  outside this model, which reports it as an error.
\<close>

record URL =
  Scheme :: string
  Opaque :: string
  Host :: string
  Path :: string
  RawQuery :: string
  Fragment :: string

datatype encoding = encodePath | encodeHost | encodeUserPassword | encodeQueryComponent | encodeFragment

definition ishex :: "char \<Rightarrow> bool" where
  "ishex c = (isDigitByte c \<or> (CHR ''a'' \<le> c \<and> c \<le> CHR ''f'') \<or> (CHR ''A'' \<le> c \<and> c \<le> CHR ''F''))"

definition unhex :: "char \<Rightarrow> nat" where
  "unhex c =
     (if isDigitByte c then of_char c - of_char CHR ''0''
      else if CHR ''a'' \<le> c \<and> c \<le> CHR ''f'' then of_char c - of_char CHR ''a'' + 10
      else if CHR ''A'' \<le> c \<and> c \<le> CHR ''F'' then of_char c - of_char CHR ''A'' + 10
      else 0)"

definition hostByteAllowed :: "char \<Rightarrow> bool" where
  "hostByteAllowed c =
     (isLetterByte c \<or> isDigitByte c \<or> c \<in> set ''!$&()*+,;=:[]<>-_.~'' \<or> c = CHR 0x27 \<or> c = CHR 0x22)"

fun unescape :: "encoding \<Rightarrow> string \<Rightarrow> error + string" where
  "unescape mode [] = Inr []"
| "unescape mode (c # cs) =
     (if c = CHR ''%'' then
        (case cs of
           h1 # h2 # rest \<Rightarrow>
             if \<not> ishex h1 \<or> \<not> ishex h2 then Inl (Err ''invalid URL escape'')
             else if mode = encodeHost \<and> unhex h1 < 8 \<and> [h1, h2] \<noteq> ''25''
               then Inl (Err ''invalid URL escape'')
             else (case unescape mode rest of
                     Inl e \<Rightarrow> Inl e
                   | Inr r \<Rightarrow> Inr (char_of (unhex h1 * 16 + unhex h2) # r))
         | _ \<Rightarrow> Inl (Err ''invalid URL escape''))
      else if mode = encodeHost \<and> (of_char c :: nat) < 128 \<and> \<not> hostByteAllowed c
        then Inl (Err ''invalid character in host name'')
      else (case unescape mode cs of
              Inl e \<Rightarrow> Inl e
            | Inr r \<Rightarrow> Inr ((if c = CHR ''+'' \<and> mode = encodeQueryComponent then CHR '' '' else c) # r)))"

fun getSchemeFrom :: "nat \<Rightarrow> string \<Rightarrow> string \<Rightarrow> error + (string \<times> string)" where
  "getSchemeFrom i rawURL [] = Inr ([], rawURL)"
| "getSchemeFrom i rawURL (c # cs) =
     (if isLetterByte c then getSchemeFrom (i + 1) rawURL cs
      else if isDigitByte c \<or> c = CHR ''+'' \<or> c = CHR ''-'' \<or> c = CHR ''.'' then
        (if i = 0 then Inr ([], rawURL) else getSchemeFrom (i + 1) rawURL cs)
      else if c = CHR '':'' then
        (if i = 0 then Inl (Err ''missing protocol scheme'')
         else Inr (take i rawURL, drop (i + 1) rawURL))
      else Inr ([], rawURL))"

definition getScheme :: "string \<Rightarrow> error + (string \<times> string)" where
  "getScheme rawURL = getSchemeFrom 0 rawURL rawURL"

definition stringContainsCTLByte :: "string \<Rightarrow> bool" where
  "stringContainsCTLByte s = list_ex (\<lambda>c. (of_char c :: nat) < 32 \<or> (of_char c :: nat) = 127) s"

definition validOptionalPort :: "string \<Rightarrow> bool" where
  "validOptionalPort port =
     (case port of [] \<Rightarrow> True | c # ds \<Rightarrow> c = CHR '':'' \<and> list_all isDigitByte ds)"

definition validUserinfo :: "string \<Rightarrow> bool" where
  "validUserinfo s =
     list_all (\<lambda>c. isLetterByte c \<or> isDigitByte c \<or> c \<in> set ''-._:~!$&()*+,;=%@'' \<or> c = CHR 0x27) s"

definition parseHost :: "string \<Rightarrow> error + string" where
  "parseHost host =
     (if HasPrefix host ''['' then Inl (Err ''IP literal host'')
      else if 0 \<le> LastIndexByte host CHR '':'' \<and>
              \<not> validOptionalPort (drop (nat (LastIndexByte host CHR '':'')) host)
        then Inl (Err ''invalid port after host'')
      else unescape encodeHost host)"

definition parseAuthority :: "string \<Rightarrow> error + string" where
  "parseAuthority authority =
     (let i = LastIndexByte authority CHR ''@'' in
      if i < 0 then parseHost authority
      else (case parseHost (drop (nat i + 1) authority) of
              Inl e \<Rightarrow> Inl e
            | Inr host \<Rightarrow>
                let userinfo = take (nat i) authority in
                if \<not> validUserinfo userinfo then Inl (Err ''net/url: invalid userinfo'')
                else (case Cut userinfo '':'' of
                        (username, password, _) \<Rightarrow>
                          (case unescape encodeUserPassword username of
                             Inl e \<Rightarrow> Inl e
                           | Inr _ \<Rightarrow>
                               (case unescape encodeUserPassword password of
                                  Inl e \<Rightarrow> Inl e
                                | Inr _ \<Rightarrow> Inr host)))))"

definition url_parse :: "string \<Rightarrow> error + URL" where
  "url_parse rawURL =
     (if stringContainsCTLByte rawURL then Inl (Err ''net/url: invalid control character in URL'')
      else if rawURL = ''*'' then
        Inr \<lparr>Scheme = [], Opaque = [], Host = [], Path = ''*'', RawQuery = [], Fragment = []\<rparr>
      else
        (case getScheme rawURL of
           Inl e \<Rightarrow> Inl e
         | Inr (scheme0, rest0) \<Rightarrow>
             let scheme = ToLower scheme0;
                 (rest1, rawQuery) =
                   (if HasSuffix rest0 ''?'' \<and> count_list rest0 CHR ''?'' = 1
                    then (take (length rest0 - 1) rest0, [])
                    else (fst (Cut rest0 ''?''), fst (snd (Cut rest0 ''?''))))
             in
             if \<not> HasPrefix rest1 ''/'' \<and> scheme \<noteq> [] then
               Inr \<lparr>Scheme = scheme, Opaque = rest1, Host = [], Path = [], RawQuery = rawQuery,
                    Fragment = []\<rparr>
             else if \<not> HasPrefix rest1 ''/'' \<and> Contains (fst (Cut rest1 ''/'')) '':'' then
               Inl (Err ''first path segment in URL cannot contain colon'')
             else
               (let (hostResult, rest2) =
                      (if (scheme \<noteq> [] \<or> \<not> HasPrefix rest1 ''///'') \<and> HasPrefix rest1 ''//''
                       then (let authority = drop 2 rest1 in
                             if 0 \<le> Index authority ''/''
                             then (parseAuthority (take (nat (Index authority ''/'')) authority),
                                   drop (nat (Index authority ''/'')) authority)
                             else (parseAuthority authority, []))
                       else (Inr [], rest1))
                in case hostResult of
                     Inl e \<Rightarrow> Inl e
                   | Inr host \<Rightarrow>
                       (case unescape encodePath rest2 of
                          Inl e \<Rightarrow> Inl e
                        | Inr path \<Rightarrow>
                            Inr \<lparr>Scheme = scheme, Opaque = [], Host = host, Path = path,
                                 RawQuery = rawQuery, Fragment = []\<rparr>))))"

definition url_Parse :: "string \<Rightarrow> error + URL" where
  "url_Parse rawURL =
     (case Cut rawURL ''#'' of
        (u, frag, _) \<Rightarrow>
          (case url_parse u of
             Inl e \<Rightarrow> Inl e
           | Inr url \<Rightarrow>
               if frag = [] then Inr url
               else (case unescape encodeFragment frag of
                       Inl e \<Rightarrow> Inl e
                     | Inr f \<Rightarrow> Inr (url\<lparr>Fragment := f\<rparr>))))"

text \<open>
  \<^verbatim>\<open>URL.Query\<close> parses the raw query into key and value pairs, dropping the pairs that
  are malformed; \<^verbatim>\<open>Values.Get\<close> is the first value of a key, or the empty string.
\<close>

definition queryPair :: "string \<Rightarrow> (string \<times> string) list" where
  "queryPair kv =
     (if Contains kv '';'' \<or> kv = [] then []
      else (case Cut kv ''='' of
              (k, v, _) \<Rightarrow>
                (case unescape encodeQueryComponent k of
                   Inl _ \<Rightarrow> []
                 | Inr key \<Rightarrow>
                     (case unescape encodeQueryComponent v of
                        Inl _ \<Rightarrow> []
                      | Inr val \<Rightarrow> [(key, val)]))))"

definition Query :: "URL \<Rightarrow> (string \<times> string) list" where
  "Query u = (if RawQuery u = [] then [] else concat (map queryPair (Split (RawQuery u) ''&'')))"

definition Values_Get :: "(string \<times> string) list \<Rightarrow> string \<Rightarrow> string" where
  "Values_Get vs key = (case map_of vs key of None \<Rightarrow> [] | Some v \<Rightarrow> v)"

section \<open>Category pages\<close>

text \<open>
  \<^verbatim>\<open>strconv.Atoi\<close> accepts an optional sign and decimal digits that give a number in
  the 64-bit range; \<open>isCategoryPage\<close> only asks whether it succeeds.
\<close>

definition digitsValue :: "string \<Rightarrow> int" where
  "digitsValue ds = foldl (\<lambda>n c. 10 * n + (int (of_char c) - int (of_char CHR ''0''))) 0 ds"

definition Atoi :: "string \<Rightarrow> error + int" where
  "Atoi s =
     (let (neg, ds) =
            (case s of
               c # cs \<Rightarrow> if c = CHR ''-'' then (True, cs) else if c = CHR ''+'' then (False, cs) else (False, s)
             | [] \<Rightarrow> (False, s))
      in if ds = [] \<or> \<not> list_all isDigitByte ds then Inl (Err ''invalid syntax'')
         else (let n = (if neg then - digitsValue ds else digitsValue ds)
               in if n < - (2 ^ 63) \<or> 2 ^ 63 - 1 < n then Inl (Err ''value out of range'') else Inr n))"

definition categoryIndicators :: "string list" where
  "categoryIndicators =
     [''section'', ''sections'', ''category'', ''categories'', ''topic'', ''topics'',
      ''tag'', ''tags'', ''archive'', ''archives'', ''index'']"

definition newsSections :: "string list" where
  "newsSections =
     [''news'', ''world'', ''national'', ''local'', ''us'', ''uk'', ''international'', ''global'',
      ''politics'', ''political'', ''government'', ''policy'',
      ''business'', ''finance'', ''economy'', ''markets'', ''money'',
      ''technology'', ''tech'', ''science'', ''innovation'',
      ''technology'', ''tech'', ''science'', ''innovation'',
      ''health'', ''medical'', ''wellness'', ''healthcare'',
      ''sports'', ''sport'', ''football'', ''basketball'', ''baseball'', ''soccer'',
      ''entertainment'', ''culture'', ''arts'', ''music'', ''movies'', ''film'', ''tv'', ''television'',
      ''lifestyle'', ''life'', ''living'', ''fashion'', ''food'', ''travel'', ''style'',
      ''opinion'', ''opinions'', ''editorial'', ''editorials'', ''commentary'', ''columnists'',
      ''investigations'', ''analysis'', ''features'', ''special-reports'',
      ''environment'', ''climate'', ''weather'', ''energy'',
      ''education'', ''schools'', ''university'', ''college'',
      ''crime'', ''law'', ''justice'', ''courts'',
      ''religion'', ''faith'', ''beliefs'',
      ''obituaries'', ''obits'', ''deaths'',
      ''asia'', ''europe'', ''africa'', ''americas'', ''middle-east'', ''middleeast'',
      ''asia-pacific'', ''latin-america'', ''north-america'', ''south-america'',
      ''england'', ''scotland'', ''wales'', ''northern-ireland'',
      ''us-canada'', ''latin-america'', ''middle-east-asia'',
      ''video'', ''videos'', ''podcasts'', ''audio'', ''multimedia'', ''gallery'', ''galleries'',
      ''photos'', ''pictures'', ''images'',
      ''today'', ''latest'', ''breaking'', ''live'', ''now'', ''updates'']"

definition stripExtensions :: "string \<Rightarrow> string" where
  "stripExtensions segmentLower =
     TrimSuffix (TrimSuffix (TrimSuffix (TrimSuffix (TrimSuffix segmentLower
       ''.html'') ''.htm'') ''.php'') ''.asp'') ''.aspx''"

definition hasCategoryIndicator :: "string \<Rightarrow> bool" where
  "hasCategoryIndicator segment =
     (let segmentLower = stripExtensions (ToLower segment)
      in list_ex (\<lambda>indicator. segmentLower = indicator
                    \<or> HasPrefix segmentLower (indicator @ ''-'')
                    \<or> HasPrefix segmentLower (indicator @ ''_'')) categoryIndicators)"

definition digitCount :: "string \<Rightarrow> nat" where
  "digitCount segmentLower = length (filter isDigitByte segmentLower)"

definition isArticleSegment :: "string \<Rightarrow> bool" where
  "isArticleSegment segment =
     (let segmentLower = ToLower segment
      in segmentLower = ''articles'' \<or> segmentLower = ''article'' \<or> segmentLower = ''story''
         \<or> (length segmentLower \<ge> 8 \<and> digitCount segmentLower \<ge> 8))"

definition matchesSection :: "string \<Rightarrow> bool" where
  "matchesSection segment =
     (let segmentLower = stripExtensions (ToLower segment)
      in list_ex (\<lambda>section. segmentLower = section
                    \<or> HasPrefix segmentLower (section @ ''-'')
                    \<or> HasPrefix segmentLower (section @ ''_'')
                    \<or> (length section \<ge> 4 \<and> HasPrefix segmentLower section)) newsSections)"

definition isOk :: "error + 'a \<Rightarrow> bool" where
  "isOk r = (case r of Inl _ \<Rightarrow> False | Inr _ \<Rightarrow> True)"

definition isCategoryPage :: "(string \<Rightarrow> error + URL) \<Rightarrow> string \<Rightarrow> bool" where
  "isCategoryPage parse targetURL =
     (case parse targetURL of
        Inl _ \<Rightarrow> False
      | Inr parsedURL \<Rightarrow>
          let path = Trim (Path parsedURL) ''/'' in
          if path = [] then False
          else
            let segments = Split path ''/'' in
            if list_ex hasCategoryIndicator segments then True
            else if list_ex isArticleSegment segments then False
            else
              let sectionMatchCount = length (filter matchesSection segments) in
              if length segments \<le> 4 \<and> length segments \<le> 2 \<and> sectionMatchCount = length segments then True
              else if length segments \<le> 4 \<and> length segments = 3 \<and> sectionMatchCount \<ge> 2 then True
              else if length segments \<le> 4 \<and> length segments = 4 \<and> sectionMatchCount \<ge> 3 then True
              else if length segments = 2 \<and> ToLower (hd segments) \<in> set categoryIndicators then True
              else if length segments \<ge> 1 \<and> length segments \<le> 3 \<and> length (hd segments) = 4
                      \<and> isOk (Atoi (hd segments))
                      \<and> (length segments \<le> 2
                          \<or> (length segments = 3 \<and> list_all (\<lambda>seg. isOk (Atoi seg)) segments))
                then True
              else False)"

section \<open>Direct image URLs\<close>

definition imageExtensions :: "string list" where
  "imageExtensions =
     [''.jpg'', ''.jpeg'', ''.png'', ''.gif'', ''.bmp'', ''.webp'', ''.svg'', ''.ico'', ''.tiff'', ''.tif'']"

definition imageHosts :: "string list" where
  "imageHosts =
     [''images.unsplash.com'', ''i.imgur.com'', ''cdn.pixabay.com'', ''images.pexels.com'',
      ''source.unsplash.com'']"

definition formatParamMatches :: "(string \<times> string) list \<Rightarrow> string \<Rightarrow> bool" where
  "formatParamMatches queryParams param =
     (let v = Values_Get queryParams param in
      v \<noteq> [] \<and>
      list_ex (\<lambda>ext. ToLower v = TrimPrefix ext ''.'' \<or> HasPrefix (ToLower v) (TrimPrefix ext ''.''))
        imageExtensions)"

definition isImageURL :: "(string \<Rightarrow> error + URL) \<Rightarrow> string \<Rightarrow> bool" where
  "isImageURL parse targetURL =
     (case parse targetURL of
        Inl _ \<Rightarrow> False
      | Inr parsedURL \<Rightarrow>
          let pathLower = ToLower (Path parsedURL) in
          if list_ex (\<lambda>ext. HasSuffix pathLower ext) imageExtensions then True
          else if list_ex (formatParamMatches (Query parsedURL)) [''fm'', ''format'', ''ext'', ''f''] then True
          else
            let hostLower = ToLower (Host parsedURL) in
            list_ex (\<lambda>imageHost. hostLower = imageHost \<or> HasSuffix hostLower (''.'' @ imageHost)) imageHosts)"



text \<open>
  Claim C6. \<^verbatim>\<open>https://www.bbc.com/arts\<close> is a category page;
  \<^verbatim>\<open>https://www.bbc.com/news/world-middle-east-12345678\<close> is not, because a segment
  with eight digits marks an article although \<^verbatim>\<open>news\<close> and \<^verbatim>\<open>world-...\<close> are section
  names; and \<^verbatim>\<open>https://www.bbc.com\<close>, whose path is empty, is not.
\<close>

theorem C6_isCategoryPage_examples:
  "isCategoryPage url_Parse ''https://www.bbc.com/arts'' = True
   \<and> isCategoryPage url_Parse ''https://www.bbc.com/news/world-middle-east-12345678'' = False
   \<and> isCategoryPage url_Parse ''https://www.bbc.com'' = False"
proof (intro conjI)
  show "isCategoryPage url_Parse ''https://www.bbc.com/arts'' = True"
    by code_simp
  show "isCategoryPage url_Parse ''https://www.bbc.com/news/world-middle-east-12345678'' = False"
    by code_simp
  show "isCategoryPage url_Parse ''https://www.bbc.com'' = False"
    by code_simp
qed

text \<open>
  The second URL is rejected by the article pattern and by nothing else: without the
  digits the same address is a category page.
\<close>

lemma isCategoryPage_without_digits:
  "isCategoryPage url_Parse ''https://www.bbc.com/news/world-middle-east'' = True"
  by code_simp

section \<open>Scoring a link\<close>

record LinkScore =
  URL :: string
  Score :: real
  Reason :: string
  Categories :: "string list"
  IsRecommended :: bool
  MaliciousIndicators :: "string list"
  AIUsed :: bool

text \<open>
  \<^verbatim>\<open>ScoreLinkContent\<close> validates the URL, answers for a direct image URL at once, and
  otherwise fetches the page and scores it. The result is paired with the list of the
  HTTP requests made. Everything from the request on is the parameter \<open>fetchAndScore\<close>;
  it is reached only on the last branch.
\<close>

definition ScoreLinkContent ::
  "(string \<Rightarrow> error + URL) \<Rightarrow> (string \<Rightarrow> (error + LinkScore) \<times> string list) \<Rightarrow> string
     \<Rightarrow> (error + LinkScore) \<times> string list" where
  "ScoreLinkContent parse fetchAndScore targetURL =
     (case parse targetURL of
        Inl (Err msg) \<Rightarrow> (Inl (Err (''invalid URL: '' @ msg)), [])
      | Inr parsedURL \<Rightarrow>
          if Scheme parsedURL \<noteq> ''http'' \<and> Scheme parsedURL \<noteq> ''https''
          then (Inl (Err ''URL must be http or https''), [])
          else if isImageURL parse targetURL
          then (Inr \<lparr>URL = targetURL,
                      Score = 0.0,
                      Reason = ''Image file detected - skipping content scoring'',
                      Categories = [''image'', ''media''],
                      IsRecommended = False,
                      MaliciousIndicators = [],
                      AIUsed = False\<rparr>, [])
          else fetchAndScore targetURL)"

text \<open>A page fetch that fails: one request, then the error of the HTTP client.\<close>

definition failingFetch :: "string \<Rightarrow> (error + LinkScore) \<times> string list" where
  "failingFetch targetURL = (Inl (Err ''failed to fetch URL''), [targetURL])"

text \<open>
  Claim C5, as stated: every URL for which \<open>isImageURL\<close> holds gets the image score.
  It fails for \<^verbatim>\<open>ftp://example.com/photo.jpg\<close>: the path ends in \<^verbatim>\<open>.jpg\<close>, but the
  scheme check comes first and the call returns an error.
\<close>

theorem C5_image_url_counterexample:
  "isImageURL url_Parse ''ftp://example.com/photo.jpg''
   \<and> ScoreLinkContent url_Parse failingFetch ''ftp://example.com/photo.jpg''
       = (Inl (Err ''URL must be http or https''), [])"
  by code_simp

text \<open>
  Claim C5, amended. For every URL that parses with scheme \<^verbatim>\<open>http\<close> or \<^verbatim>\<open>https\<close> and
  for which \<open>isImageURL\<close> holds, \<^verbatim>\<open>ScoreLinkContent\<close> makes no request and returns score
  0, the reason \<^verbatim>\<open>Image file detected - skipping content scoring\<close>, the categories
  \<^verbatim>\<open>image\<close> and \<^verbatim>\<open>media\<close>, not recommended, no malicious indicators, no AI. For every
  URL that parses with another scheme, and for every URL that does not parse, it makes
  no request and returns an error, whether or not \<open>isImageURL\<close> holds. This is so for
  every parser and every way the fetch may behave.
\<close>

theorem C5_image_url_score:
  "(\<forall>parsedURL.
      parse targetURL = Inr parsedURL
      \<and> (Scheme parsedURL = ''http'' \<or> Scheme parsedURL = ''https'')
      \<and> isImageURL parse targetURL
      \<longrightarrow> ScoreLinkContent parse fetchAndScore targetURL =
            (Inr \<lparr>URL = targetURL, Score = 0,
                  Reason = ''Image file detected - skipping content scoring'',
                  Categories = [''image'', ''media''], IsRecommended = False,
                  MaliciousIndicators = [], AIUsed = False\<rparr>, []))
   \<and> (\<forall>parsedURL.
      parse targetURL = Inr parsedURL
      \<and> Scheme parsedURL \<noteq> ''http'' \<and> Scheme parsedURL \<noteq> ''https''
      \<longrightarrow> ScoreLinkContent parse fetchAndScore targetURL =
            (Inl (Err ''URL must be http or https''), []))
   \<and> (\<forall>msg.
      parse targetURL = Inl (Err msg)
      \<longrightarrow> ScoreLinkContent parse fetchAndScore targetURL =
            (Inl (Err (''invalid URL: '' @ msg)), []))"
proof (intro conjI allI impI)
  fix parsedURL
  assume "parse targetURL = Inr parsedURL
      \<and> (Scheme parsedURL = ''http'' \<or> Scheme parsedURL = ''https'')
      \<and> isImageURL parse targetURL"
  then show "ScoreLinkContent parse fetchAndScore targetURL =
            (Inr \<lparr>URL = targetURL, Score = 0,
                  Reason = ''Image file detected - skipping content scoring'',
                  Categories = [''image'', ''media''], IsRecommended = False,
                  MaliciousIndicators = [], AIUsed = False\<rparr>, [])"
    by (auto simp: ScoreLinkContent_def)
next
  fix parsedURL
  assume "parse targetURL = Inr parsedURL
      \<and> Scheme parsedURL \<noteq> ''http'' \<and> Scheme parsedURL \<noteq> ''https''"
  then show "ScoreLinkContent parse fetchAndScore targetURL =
            (Inl (Err ''URL must be http or https''), [])"
    by (simp add: ScoreLinkContent_def)
next
  fix msg
  assume "parse targetURL = Inl (Err msg)"
  then show "ScoreLinkContent parse fetchAndScore targetURL =
            (Inl (Err (''invalid URL: '' @ msg)), [])"
    by (simp add: ScoreLinkContent_def)
qed

text \<open>
  The three cases at three URLs: an image over \<^verbatim>\<open>https\<close>, an image over \<^verbatim>\<open>ftp\<close>, and
  an image path behind a host with a blank, which does not parse.
\<close>

theorem C5_image_url_score_witness:
  "ScoreLinkContent url_Parse failingFetch ''https://example.com/photo.jpg'' =
     (Inr \<lparr>URL = ''https://example.com/photo.jpg'', Score = 0,
           Reason = ''Image file detected - skipping content scoring'',
           Categories = [''image'', ''media''], IsRecommended = False,
           MaliciousIndicators = [], AIUsed = False\<rparr>, [])
   \<and> ScoreLinkContent url_Parse failingFetch ''ftp://example.com/drawing.png'' =
       (Inl (Err ''URL must be http or https''), [])
   \<and> (\<exists>msg. url_Parse ''https://exa mple.com/photo.jpg'' = Inl (Err msg)
          \<and> ScoreLinkContent url_Parse failingFetch ''https://exa mple.com/photo.jpg'' =
              (Inl (Err (''invalid URL: '' @ msg)), []))"
proof (intro conjI)
  let ?img = "\<lparr>Scheme = ''https'', Opaque = [], Host = ''example.com'', Path = ''/photo.jpg'',
                RawQuery = [], Fragment = []\<rparr>"
  have p: "url_Parse ''https://example.com/photo.jpg'' = Inr ?img"
    by code_simp
  have i: "isImageURL url_Parse ''https://example.com/photo.jpg''"
    by code_simp
  from p i have "url_Parse ''https://example.com/photo.jpg'' = Inr ?img
      \<and> (Scheme ?img = ''http'' \<or> Scheme ?img = ''https'')
      \<and> isImageURL url_Parse ''https://example.com/photo.jpg''"
    by simp
  with C5_image_url_score [of url_Parse "''https://example.com/photo.jpg''" failingFetch]
  show "ScoreLinkContent url_Parse failingFetch ''https://example.com/photo.jpg'' =
     (Inr \<lparr>URL = ''https://example.com/photo.jpg'', Score = 0,
           Reason = ''Image file detected - skipping content scoring'',
           Categories = [''image'', ''media''], IsRecommended = False,
           MaliciousIndicators = [], AIUsed = False\<rparr>, [])"
    by blast
next
  let ?ftp = "\<lparr>Scheme = ''ftp'', Opaque = [], Host = ''example.com'', Path = ''/drawing.png'',
                RawQuery = [], Fragment = []\<rparr>"
  have p: "url_Parse ''ftp://example.com/drawing.png'' = Inr ?ftp"
    by code_simp
  then have "url_Parse ''ftp://example.com/drawing.png'' = Inr ?ftp
      \<and> Scheme ?ftp \<noteq> ''http'' \<and> Scheme ?ftp \<noteq> ''https''"
    by simp
  with C5_image_url_score [of url_Parse "''ftp://example.com/drawing.png''" failingFetch]
  show "ScoreLinkContent url_Parse failingFetch ''ftp://example.com/drawing.png'' =
       (Inl (Err ''URL must be http or https''), [])"
    by blast
next
  have p: "url_Parse ''https://exa mple.com/photo.jpg'' = Inl (Err ''invalid character in host name'')"
    by code_simp
  with C5_image_url_score [of url_Parse "''https://exa mple.com/photo.jpg''" failingFetch]
  have "ScoreLinkContent url_Parse failingFetch ''https://exa mple.com/photo.jpg'' =
              (Inl (Err (''invalid URL: '' @ ''invalid character in host name'')), [])"
    by blast
  with p show "\<exists>msg. url_Parse ''https://exa mple.com/photo.jpg'' = Inl (Err msg)
          \<and> ScoreLinkContent url_Parse failingFetch ''https://exa mple.com/photo.jpg'' =
              (Inl (Err (''invalid URL: '' @ msg)), [])"
    by blast
qed

section \<open>Go strings: counting, joining, trimming white space\<close>

text \<open>\<^verbatim>\<open>strings.Count\<close>: the number of occurrences that do not overlap.\<close>

function Count :: "string \<Rightarrow> string \<Rightarrow> nat" where
  "Count s sub =
     (if sub = [] then length s + 1
      else if s = [] then 0
      else if HasPrefix s sub then 1 + Count (drop (length sub) s) sub
      else Count (tl s) sub)"
  by pat_completeness auto
termination
  by (relation "measure (\<lambda>(s, sub). length s)") auto

declare Count.simps [simp del]

definition TrimSpace :: "string \<Rightarrow> string" where
  "TrimSpace s = rev (dropWhile isSpaceByte (rev (dropWhile isSpaceByte s)))"

fun Join :: "string list \<Rightarrow> string \<Rightarrow> string" where
  "Join [] sep = []"
| "Join [x] sep = x"
| "Join (x # y # ys) sep = x @ sep @ Join (y # ys) sep"

section \<open>Rule-based content score\<close>

text \<open>
  \<^verbatim>\<open>scoreContentFallback\<close> first looks the lower-cased URL up in the map of blocked
  content types and returns at the first key it finds in the URL. Go visits the
  entries of a map in an order that it does not fix, so the order of the visit is the
  argument \<open>order\<close>, a rearrangement of \<open>blockedDomains\<close>. Then the score, the reasons,
  the categories and the malicious indicators are updated check by check.
\<close>

definition blockedDomains :: "(string \<times> string) list" where
  "blockedDomains =
     [(''facebook.com'', ''social-media''),
      (''twitter.com'', ''social-media''),
      (''x.com'', ''social-media''),
      (''instagram.com'', ''social-media''),
      (''tiktok.com'', ''social-media''),
      (''reddit.com'', ''forum''),
      (''linkedin.com'', ''social-media''),
      (''pinterest.com'', ''social-media''),
      (''snapchat.com'', ''social-media''),
      (''bet'', ''gambling''),
      (''casino'', ''gambling''),
      (''poker'', ''gambling''),
      (''betting'', ''gambling''),
      (''xxx'', ''adult-content''),
      (''porn'', ''adult-content''),
      (''adult'', ''adult-content''),
      (''cannabis'', ''drugs''),
      (''weed'', ''drugs''),
      (''ebay.com'', ''marketplace''),
      (''amazon.com'', ''marketplace''),
      (''craigslist.org'', ''marketplace'')]"

definition qualityDomains :: "string list" where
  "qualityDomains = [''.edu'', ''.gov'', ''.org'', ''wikipedia'', ''arxiv'', ''github'', ''stackoverflow'']"

definition technicalKeywords :: "string list" where
  "technicalKeywords =
     [''documentation'', ''tutorial'', ''guide'', ''research'', ''study'', ''analysis'', ''technical'']"

record scoring =
  score :: real
  reasons :: "string list"
  categories :: "string list"
  maliciousIndicators :: "string list"

definition wordCount :: "string \<Rightarrow> nat" where
  "wordCount content = length (Fields content)"

definition checkLength :: "string \<Rightarrow> scoring \<Rightarrow> scoring" where
  "checkLength content st =
     (let contentLength = length content in
      if contentLength < 100 then
        st\<lparr>score := score st - 0.3,
           reasons := reasons st @ [''Very short content''],
           categories := categories st @ [''low-quality'']\<rparr>
      else if contentLength < 500 then
        st\<lparr>score := score st - 0.1, reasons := reasons st @ [''Short content'']\<rparr>
      else if contentLength > 1000 then
        st\<lparr>score := score st + 0.2,
           reasons := reasons st @ [''Substantial content''],
           categories := categories st @ [''informational'']\<rparr>
      else st)"

definition checkWordCount :: "string \<Rightarrow> scoring \<Rightarrow> scoring" where
  "checkWordCount content st =
     (if wordCount content < 20 then
        st\<lparr>score := score st - 0.2, categories := categories st @ [''minimal-content'']\<rparr>
      else st)"

definition isBulletLine :: "string \<Rightarrow> bool" where
  "isBulletLine trimmed =
     (HasPrefix trimmed ''-''
      \<or> HasPrefix trimmed [CHR 0xC3, CHR 0xA2, CHR 0xE2, CHR 0x82, CHR 0xAC, CHR 0xC2, CHR 0xA2]
      \<or> HasPrefix trimmed ''*''
      \<or> HasPrefix trimmed [CHR 0xC3, CHR 0xA2, CHR 0xE2, CHR 0x80, CHR 0x94, CHR 0xC2, CHR 0xA6]
      \<or> (length trimmed > 2 \<and> CHR ''0'' \<le> trimmed ! 0 \<and> trimmed ! 0 \<le> CHR ''9''
          \<and> (trimmed ! 1 = CHR ''.'' \<or> trimmed ! 1 = CHR '')'')))"

definition nonEmptyLines :: "string \<Rightarrow> nat" where
  "nonEmptyLines content = length (filter (\<lambda>line. TrimSpace line \<noteq> []) (Split content [CHR 0x0A]))"

definition bulletLines :: "string \<Rightarrow> nat" where
  "bulletLines content =
     length (filter (\<lambda>line. TrimSpace line \<noteq> [] \<and> isBulletLine (TrimSpace line))
       (Split content [CHR 0x0A]))"

definition bulletRatio :: "string \<Rightarrow> real" where
  "bulletRatio content = real (bulletLines content) / real (nonEmptyLines content)"

definition checkBullets :: "string \<Rightarrow> scoring \<Rightarrow> scoring" where
  "checkBullets content st =
     (if nonEmptyLines content > 5 \<and> bulletLines content > 0 then
        (if bulletRatio content > 0.6 then
           st\<lparr>score := score st - 0.3,
              reasons := reasons st @ [''Content is primarily bullet points/list items''],
              categories := categories st @ [''sparse-content'', ''low-quality'']\<rparr>
         else if bulletRatio content > 0.4 then
           st\<lparr>score := score st - 0.15,
              reasons := reasons st @ [''Content contains many bullet points'']\<rparr>
         else st)
      else st)"

definition avgLineLength :: "string \<Rightarrow> real" where
  "avgLineLength content = real (length content) / real (nonEmptyLines content)"

definition checkShortLines :: "string \<Rightarrow> scoring \<Rightarrow> scoring" where
  "checkShortLines content st =
     (if nonEmptyLines content > 10 \<and> avgLineLength content < 30 then
        st\<lparr>score := score st - 0.2,
           reasons := reasons st @ [''Content has very short lines (sparse layout)''],
           categories := categories st @ [''sparse-content'']\<rparr>
      else st)"

definition hasSpamIndicators :: "string \<Rightarrow> bool" where
  "hasSpamIndicators contentLower =
     (Count contentLower ''click here'' > 2
      \<or> Count contentLower ''buy now'' > 2
      \<or> Count contentLower ''limited offer'' > 1)"

definition checkSpam :: "string \<Rightarrow> scoring \<Rightarrow> scoring" where
  "checkSpam contentLower st =
     (if hasSpamIndicators contentLower then
        st\<lparr>score := score st - 0.3,
           reasons := reasons st @ [''Spam indicators detected''],
           categories := categories st @ [''spam''],
           maliciousIndicators := maliciousIndicators st @ [''spam_keywords'']\<rparr>
      else st)"

definition hasExcessivePunctuation :: "string \<Rightarrow> bool" where
  "hasExcessivePunctuation content =
     (Count content ''!'' > wordCount content div 10 \<and> Count content ''!'' > 5)"

definition checkPunctuation :: "string \<Rightarrow> scoring \<Rightarrow> scoring" where
  "checkPunctuation content st =
     (if hasExcessivePunctuation content then
        st\<lparr>score := score st - 0.2, reasons := reasons st @ [''Excessive punctuation'']\<rparr>
      else st)"

definition checkQualityDomain :: "string \<Rightarrow> scoring \<Rightarrow> scoring" where
  "checkQualityDomain urlLower st =
     (if list_ex (\<lambda>domain. Contains urlLower domain) qualityDomains then
        st\<lparr>score := score st + 0.3,
           reasons := reasons st @ [''Quality domain detected''],
           categories := categories st @ [''reference'', ''trusted_source'']\<rparr>
      else st)"

definition checkTechnical :: "string \<Rightarrow> string \<Rightarrow> scoring \<Rightarrow> scoring" where
  "checkTechnical titleLower contentLower st =
     (if list_ex (\<lambda>keyword. Contains titleLower keyword \<or> Contains contentLower keyword) technicalKeywords then
        st\<lparr>score := score st + 0.1, categories := categories st @ [''technical'', ''educational'']\<rparr>
      else st)"

definition scoreContentFallback ::
  "(string \<times> string) list \<Rightarrow> string \<Rightarrow> string \<Rightarrow> string \<Rightarrow> real \<times> string \<times> string list \<times> string list" where
  "scoreContentFallback order targetURL title content =
     (let urlLower = ToLower targetURL;
          titleLower = ToLower title;
          contentLower = ToLower content
      in case find (\<lambda>(domain, category). Contains urlLower domain) order of
           Some (domain, category) \<Rightarrow>
             (0.1,
              Join [''Blocked content type detected: '' @ category] ''; '',
              [category, ''low-quality''],
              [category])
         | None \<Rightarrow>
             let st0 = \<lparr>score = 0.5, reasons = [], categories = [], maliciousIndicators = []\<rparr>;
                 st = checkTechnical titleLower contentLower
                        (checkQualityDomain urlLower
                          (checkPunctuation content
                            (checkSpam contentLower
                              (checkShortLines content
                                (checkBullets content
                                  (checkWordCount content
                                    (checkLength content st0)))))));
                 final = clampScore (score st);
                 reason =
                   (if length (reasons st) = 0 then ''Rule-based assessment (Ollama unavailable)''
                    else ''Rule-based: '' @ Join (reasons st) ''; '');
                 cats =
                   (if length (categories st) = 0
                    then (if final \<ge> 0.6 then [''informational''] else [''general''])
                    else categories st)
             in (final, reason, map (normalizeTag ToLower) cats, map (normalizeTag ToLower) (maliciousIndicators st)))"








lemma checkQualityDomain_wikipedia:
  "Contains u ''wikipedia'' \<Longrightarrow>
   checkQualityDomain u st =
     st\<lparr>score := score st + 0.3,
        reasons := reasons st @ [''Quality domain detected''],
        categories := categories st @ [''reference'', ''trusted_source'']\<rparr>"
  by (simp add: checkQualityDomain_def qualityDomains_def)


lemma Contains_needs_byte: "c \<in> set sub \<Longrightarrow> c \<notin> set s \<Longrightarrow> \<not> Contains s sub"
  by (auto simp: Contains_iff)

lemma Count_absent: "sub \<noteq> [] \<Longrightarrow> \<not> Contains s sub \<Longrightarrow> Count s sub = 0"
proof (induction s)
  case Nil
  then show ?case by (subst Count.simps) simp
next
  case (Cons c cs)
  from Cons.prems(2) have np: "\<not> HasPrefix (c # cs) sub"
    by (auto simp: Contains_iff HasPrefix_iff) (metis append_Nil)
  from Cons.prems(2) have "\<not> Contains cs sub"
    by (auto simp: Contains_iff) (metis append_Cons)
  with Cons.IH Cons.prems(1) have "Count cs sub = 0" by simp
  with np Cons.prems(1) show ?case by (subst Count.simps) simp
qed

lemma Split_absent: "sep \<noteq> [] \<Longrightarrow> \<not> Contains s sep \<Longrightarrow> Split s sep = [s]"
  by (subst Split.simps) (simp add: Contains_def)

lemma nonEmptyLines_one_line: "CHR 0x0A \<notin> set content \<Longrightarrow> nonEmptyLines content \<le> 1"
  by (simp add: nonEmptyLines_def Split_absent Contains_single)





lemma fieldsFrom_no_space:
  "\<not> list_ex isSpaceByte s \<Longrightarrow> cur @ s \<noteq> [] \<Longrightarrow> fieldsFrom cur s = [cur @ s]"
  by (induction s arbitrary: cur) auto



text \<open>
  The content checks alone also bring a Wikipedia URL below 0.7: a single word of 1000
  letters is not longer than 1000 characters and has fewer than 20 words, which gives
  0.5 - 0.2 + 0.3.
\<close>

lemma wikipedia_single_word:
  "fst (scoreContentFallback blockedDomains ''https://en.wikipedia.org/wiki/Go'' ''Go - Wikipedia''
          (replicate 1000 CHR ''x'')) = 0.6"
proof -
  let ?c = "replicate 1000 CHR ''x''"
  have none: "find (\<lambda>(domain, category). Contains (ToLower ''https://en.wikipedia.org/wiki/Go'') domain)
                blockedDomains = None"
    by code_simp
  have wiki: "Contains (ToLower ''https://en.wikipedia.org/wiki/Go'') ''wikipedia''"
    by code_simp
  have low: "ToLower ?c = ?c"
    by (simp add: ToLower_def toLowerByte_def isUpperByte_def)
  have words: "wordCount ?c = 1"
    unfolding wordCount_def Fields_def
    by (subst fieldsFrom_no_space) (simp_all add: list_ex_iff isSpaceByte_def)
  have lines: "nonEmptyLines ?c \<le> 1"
    by (rule nonEmptyLines_one_line) simp
  have spam: "\<not> hasSpamIndicators ?c"
    by (simp add: hasSpamIndicators_def Count_absent Contains_needs_byte[of "CHR ''c''"]
        Contains_needs_byte[of "CHR ''b''"] Contains_needs_byte[of "CHR ''l''"])
  have punct: "\<not> hasExcessivePunctuation ?c"
    by (simp add: hasExcessivePunctuation_def Count_absent Contains_needs_byte[of "CHR ''!''"])
  have tech: "\<not> list_ex (\<lambda>keyword. Contains (ToLower ''Go - Wikipedia'') keyword \<or> Contains ?c keyword)
                  technicalKeywords"
  proof -
    have t: "\<not> list_ex (\<lambda>keyword. Contains (ToLower ''Go - Wikipedia'') keyword) technicalKeywords"
      by code_simp
    have c: "\<not> list_ex (\<lambda>keyword. Contains ?c keyword) technicalKeywords"
      by (simp add: technicalKeywords_def Contains_needs_byte[of "CHR ''d''"]
          Contains_needs_byte[of "CHR ''t''"] Contains_needs_byte[of "CHR ''g''"]
          Contains_needs_byte[of "CHR ''r''"] Contains_needs_byte[of "CHR ''s''"]
          Contains_needs_byte[of "CHR ''a''"])
    from t c show ?thesis by (auto simp: list_ex_iff)
  qed
  from lines have b: "\<not> 5 < nonEmptyLines ?c" and l: "\<not> 10 < nonEmptyLines ?c" by simp_all
  show ?thesis
    by (simp add: scoreContentFallback_def Let_def none low checkLength_def checkWordCount_def words
        checkBullets_def b checkShortLines_def l checkSpam_def spam checkPunctuation_def punct
        checkQualityDomain_wikipedia[OF wiki] checkTechnical_def tech clampScore_def)
qed



section \<open>The store\<close>

text \<open>
  Package \<^verbatim>\<open>db\<close> talks to PostgreSQL through \<^verbatim>\<open>database/sql\<close>. The store is the two
  tables of the migrations, \<^verbatim>\<open>scraped_data\<close> and \<^verbatim>\<open>images\<close>, with their rows in
  insertion order, and the state of the handle: after \<^verbatim>\<open>Close\<close> every statement fails.
  The SQL statements of the source are the functions \<open>exec_...\<close> below; they enforce
  what the schema declares: the primary keys, the unique URL and slug of a scrape, the
  foreign key from an image to its scrape (which has \<^verbatim>\<open>ON DELETE CASCADE\<close> and no
  action on update), and the 32-bit range of the \<^verbatim>\<open>INTEGER\<close> columns. A column that may
  be \<^verbatim>\<open>NULL\<close> is an option.
\<close>

record scraped_row =
  sd_id :: string
  sd_url :: string
  sd_data :: string
  sd_slug :: "string option"
  sd_created_at :: time
  sd_updated_at :: time

record image_row =
  img_id :: string
  img_scrape_id :: string
  img_url :: string
  img_alt_text :: "string option"
  img_summary :: "string option"
  img_tags :: "string option"
  img_extracted_text :: "string option"
  img_base64_data :: "string option"
  img_file_path :: "string option"
  img_slug :: "string option"
  img_width :: "int option"
  img_height :: "int option"
  img_file_size_bytes :: "int option"
  img_content_type :: "string option"
  img_exif_data :: "string option"
  img_relevance_score :: "real option"
  img_tombstone_datetime :: "time option"
  img_created_at :: time
  img_updated_at :: time

record DB =
  closed :: bool
  scraped_data :: "scraped_row list"
  images :: "image_row list"

definition sql_closed :: error where
  "sql_closed = Err ''sql: database is closed''"

subsection \<open>Tombstones\<close>

text \<open>
  \<^verbatim>\<open>UPDATE images SET tombstone_datetime = $1 WHERE id = $2\<close>, run outside a
  transaction: the new store and the number of rows affected.
\<close>

definition exec_update_tombstone :: "DB \<Rightarrow> time option \<Rightarrow> string \<Rightarrow> error + (DB \<times> nat)" where
  "exec_update_tombstone db t ident =
     (if closed db then Inl sql_closed
      else Inr (db\<lparr>images :=
                  map (\<lambda>r. if img_id r = ident then r\<lparr>img_tombstone_datetime := t\<rparr> else r) (images db)\<rparr>,
                length (filter (\<lambda>r. img_id r = ident) (images db))))"

text \<open>
  \<^verbatim>\<open>Result.RowsAffected\<close> of the PostgreSQL driver always has the count.
\<close>

definition RowsAffected :: "nat \<Rightarrow> error + nat" where
  "RowsAffected n = Inr n"

text \<open>
  Both operations return the error, if any, and the store after the call. \<open>now\<close> is
  the reading of the clock; ninety days are \<open>90 * 24 * 3600\<close> seconds.
\<close>

definition errorf :: "string \<Rightarrow> error \<Rightarrow> error" where
  "errorf prefix e = (case e of Err msg \<Rightarrow> Err (prefix @ msg))"

definition TombstoneImageByID :: "DB \<Rightarrow> time \<Rightarrow> string \<Rightarrow> error option \<times> DB" where
  "TombstoneImageByID db now ident =
     (let tombstoneTime = now + 90 * 24 * 3600 in
      case exec_update_tombstone db (Some tombstoneTime) ident of
        Inl err \<Rightarrow> (Some (errorf ''failed to tombstone image: '' err), db)
      | Inr (db', result) \<Rightarrow>
          (case RowsAffected result of
             Inl err \<Rightarrow> (Some (errorf ''failed to get affected rows: '' err), db')
           | Inr rows \<Rightarrow>
               if rows = 0 then (Some (Err (''no image found with id: '' @ ident)), db')
               else (None, db')))"

definition UntombstoneImageByID :: "DB \<Rightarrow> string \<Rightarrow> error option \<times> DB" where
  "UntombstoneImageByID db ident =
     (case exec_update_tombstone db None ident of
        Inl err \<Rightarrow> (Some (errorf ''failed to untombstone image: '' err), db)
      | Inr (db', result) \<Rightarrow>
          (case RowsAffected result of
             Inl err \<Rightarrow> (Some (errorf ''failed to get affected rows: '' err), db')
           | Inr rows \<Rightarrow>
               if rows = 0 then (Some (Err (''no image found with id: '' @ ident)), db')
               else (None, db')))"

definition hasImage :: "DB \<Rightarrow> string \<Rightarrow> bool" where
  "hasImage db ident = list_ex (\<lambda>r. img_id r = ident) (images db)"

definition setTombstone :: "time option \<Rightarrow> string \<Rightarrow> image_row \<Rightarrow> image_row" where
  "setTombstone t ident r = (if img_id r = ident then r\<lparr>img_tombstone_datetime := t\<rparr> else r)"

text \<open>A row with all the optional columns empty.\<close>

definition plainRow :: "string \<Rightarrow> string \<Rightarrow> image_row" where
  "plainRow ident scrape =
     \<lparr>img_id = ident, img_scrape_id = scrape, img_url = ''https://example.com/a.jpg'',
      img_alt_text = None, img_summary = None, img_tags = None, img_extracted_text = None,
      img_base64_data = None, img_file_path = None, img_slug = None, img_width = None,
      img_height = None, img_file_size_bytes = None, img_content_type = None,
      img_exif_data = None, img_relevance_score = Some 0.5, img_tombstone_datetime = None,
      img_created_at = 0, img_updated_at = 0\<rparr>"

lemma filter_empty_iff_not_ex: "length (filter P xs) = 0 \<longleftrightarrow> \<not> list_ex P xs"
  by (simp add: list_ex_iff filter_empty_conv)

lemma map_unchanged: "\<not> list_ex (\<lambda>r. img_id r = ident) rs \<Longrightarrow> map (setTombstone t ident) rs = rs"
  by (induction rs) (auto simp: setTombstone_def)

lemma exec_update_tombstone_absent:
  "\<not> closed db \<Longrightarrow> \<not> hasImage db ident \<Longrightarrow> exec_update_tombstone db t ident = Inr (db, 0)"
  using map_unchanged[of ident "images db" t]
  by (simp add: exec_update_tombstone_def hasImage_def filter_empty_iff_not_ex[symmetric]
      setTombstone_def[abs_def])

lemma exec_update_tombstone_present:
  "\<not> closed db \<Longrightarrow> hasImage db ident \<Longrightarrow>
   \<exists>n. 0 < n \<and> exec_update_tombstone db t ident =
          Inr (db\<lparr>images := map (setTombstone t ident) (images db)\<rparr>, n)"
  using filter_empty_iff_not_ex[of "\<lambda>r. img_id r = ident" "images db"]
  by (auto simp: exec_update_tombstone_def hasImage_def setTombstone_def[abs_def])

text \<open>
  Claim C7, as stated: the two operations return an error exactly when no row has the
  id. On a closed handle they return an error although the row exists.
\<close>

theorem C7_tombstone_counterexample:
  "hasImage \<lparr>closed = True, scraped_data = [], images = [plainRow ''img-1'' ''scrape-1'']\<rparr> ''img-1''
   \<and> fst (TombstoneImageByID
            \<lparr>closed = True, scraped_data = [], images = [plainRow ''img-1'' ''scrape-1'']\<rparr> 1000 ''img-1'')
       = Some (Err ''failed to tombstone image: sql: database is closed'')"
  by (simp add: hasImage_def plainRow_def TombstoneImageByID_def exec_update_tombstone_def
      sql_closed_def errorf_def)

text \<open>
  Claim C7, amended. \<^verbatim>\<open>TombstoneImageByID\<close> sets the tombstone of the rows with the id
  to the clock plus ninety days and \<^verbatim>\<open>UntombstoneImageByID\<close> sets it to \<^verbatim>\<open>NULL\<close>, and
  nothing else changes. Each returns an error exactly when the statement cannot be
  executed (the handle is closed) or no row has the id, and then the store is as
  before.
\<close>

theorem C7_tombstone:
  "(case TombstoneImageByID db now ident of
      (err, db') \<Rightarrow>
        (err = None) = (\<not> closed db \<and> hasImage db ident)
        \<and> db' = (if err = None
                 then db\<lparr>images := map (setTombstone (Some (now + 90 * 24 * 3600)) ident) (images db)\<rparr>
                 else db))
   \<and> (case UntombstoneImageByID db ident of
      (err, db') \<Rightarrow>
        (err = None) = (\<not> closed db \<and> hasImage db ident)
        \<and> db' = (if err = None
                 then db\<lparr>images := map (setTombstone None ident) (images db)\<rparr>
                 else db))"
proof (cases "closed db")
  case True
  then show ?thesis
    by (simp add: TombstoneImageByID_def UntombstoneImageByID_def exec_update_tombstone_def)
next
  case opn: False
  show ?thesis
  proof (cases "hasImage db ident")
    case False
    with opn show ?thesis
      by (simp add: TombstoneImageByID_def UntombstoneImageByID_def exec_update_tombstone_absent
          RowsAffected_def)
  next
    case True
    from exec_update_tombstone_present[OF opn True, of "Some (now + 90 * 24 * 3600)"]
    obtain n where n: "0 < n" "exec_update_tombstone db (Some (now + 90 * 24 * 3600)) ident =
          Inr (db\<lparr>images := map (setTombstone (Some (now + 90 * 24 * 3600)) ident) (images db)\<rparr>, n)"
      by blast
    from exec_update_tombstone_present[OF opn True, of None]
    obtain m where m: "0 < m" "exec_update_tombstone db None ident =
          Inr (db\<lparr>images := map (setTombstone None ident) (images db)\<rparr>, m)"
      by blast
    from opn True n m show ?thesis
      by (simp add: TombstoneImageByID_def UntombstoneImageByID_def RowsAffected_def)
  qed
qed

lemma setTombstone_example:
  "snd (TombstoneImageByID
          \<lparr>closed = False, scraped_data = [], images = [plainRow ''img-1'' ''s'', plainRow ''img-2'' ''s'']\<rparr>
          1000 ''img-2'')
   = \<lparr>closed = False, scraped_data = [],
      images = [plainRow ''img-1'' ''s'', (plainRow ''img-2'' ''s'')\<lparr>img_tombstone_datetime := Some 7777000\<rparr>]\<rparr>"
  by (simp add: TombstoneImageByID_def exec_update_tombstone_def RowsAffected_def plainRow_def)

subsection \<open>Saving a scrape\<close>

record ExistingImageRef =
  ImageID :: string
  ImageURL :: string

record PageMetadata =
  Description :: string
  Keywords :: "string list"
  Author :: string
  PublishedDate :: string
  ExistingImageRefs :: "ExistingImageRef list"

record ScrapedData =
  ID :: string
  URL :: string
  Title :: string
  Content :: string
  Images :: "ImageInfo list"
  Links :: "string list"
  FetchedAt :: time
  CreatedAt :: time
  ProcessingTime :: real
  Cached :: bool
  Metadata :: PageMetadata
  Score :: "LinkScore option"
  Warnings :: "string list"
  Slug :: string

text \<open>
  \<^verbatim>\<open>json.Marshal\<close> is Go's library: the three encoders the function calls are the
  fields of \<open>json\<close>. The clock is read once for the scrape and twice for every image
  row; \<open>clock k\<close> is reading number \<open>k\<close>.
\<close>

record json =
  marshalData :: "ScrapedData \<Rightarrow> error + string"
  marshalTags :: "string list \<Rightarrow> error + string"
  marshalEXIF :: "EXIFData \<Rightarrow> error + string"

text \<open>
  \<^verbatim>\<open>INSERT INTO scraped_data ... ON CONFLICT(url) DO UPDATE SET id, data, slug,
  updated_at\<close>. Without a row of the same URL the row is inserted, unless its id or
  its slug is taken. With one, that row gets the new id, data, slug and update time,
  unless another row has the id or the slug, or the id changes while image rows still
  refer to the old one.
\<close>

definition exec_upsert_scraped_data :: "DB \<Rightarrow> scraped_row \<Rightarrow> error + DB" where
  "exec_upsert_scraped_data tx new =
     (let others = filter (\<lambda>r. sd_url r \<noteq> sd_url new) (scraped_data tx) in
      if list_ex (\<lambda>r. sd_id r = sd_id new) others then
        Inl (Err ''duplicate key value violates unique constraint scraped_data_pkey'')
      else if list_ex (\<lambda>r. sd_slug r = sd_slug new) others then
        Inl (Err ''duplicate key value violates unique constraint idx_scraped_data_slug'')
      else
        (case find (\<lambda>r. sd_url r = sd_url new) (scraped_data tx) of
           None \<Rightarrow> Inr (tx\<lparr>scraped_data := scraped_data tx @ [new]\<rparr>)
         | Some old \<Rightarrow>
             if sd_id old \<noteq> sd_id new \<and> list_ex (\<lambda>i. img_scrape_id i = sd_id old) (images tx) then
               Inl (Err ''update on table scraped_data violates foreign key constraint on table images'')
             else
               Inr (tx\<lparr>scraped_data :=
                      map (\<lambda>r. if sd_url r = sd_url new
                                then r\<lparr>sd_id := sd_id new, sd_data := sd_data new,
                                       sd_slug := sd_slug new, sd_updated_at := sd_updated_at new\<rparr>
                                else r) (scraped_data tx)\<rparr>)))"

text \<open>\<^verbatim>\<open>DELETE FROM images WHERE scrape_id = $1\<close>.\<close>

definition exec_delete_images :: "DB \<Rightarrow> string \<Rightarrow> error + DB" where
  "exec_delete_images tx scrapeID =
     Inr (tx\<lparr>images := filter (\<lambda>r. img_scrape_id r \<noteq> scrapeID) (images tx)\<rparr>)"

definition int4 :: "int \<Rightarrow> bool" where
  "int4 n = (- (2 ^ 31) \<le> n \<and> n < 2 ^ 31)"

text \<open>\<^verbatim>\<open>INSERT INTO images (...) VALUES (...)\<close>.\<close>

definition exec_insert_image :: "DB \<Rightarrow> image_row \<Rightarrow> error + DB" where
  "exec_insert_image tx row =
     (if list_ex (\<lambda>r. img_id r = img_id row) (images tx) then
        Inl (Err ''duplicate key value violates unique constraint images_pkey'')
      else if \<not> list_ex (\<lambda>s. sd_id s = img_scrape_id row) (scraped_data tx) then
        Inl (Err ''insert on table images violates foreign key constraint'')
      else if \<not> (case img_width row of None \<Rightarrow> True | Some n \<Rightarrow> int4 n)
              \<or> \<not> (case img_height row of None \<Rightarrow> True | Some n \<Rightarrow> int4 n)
              \<or> \<not> (case img_file_size_bytes row of None \<Rightarrow> True | Some n \<Rightarrow> int4 n) then
        Inl (Err ''integer out of range'')
      else Inr (tx\<lparr>images := images tx @ [row]\<rparr>))"

text \<open>The row that \<^verbatim>\<open>SaveScrapedData\<close> writes for an image.\<close>

definition imageRow :: "string \<Rightarrow> ImageInfo \<Rightarrow> string \<Rightarrow> string \<Rightarrow> time \<Rightarrow> time \<Rightarrow> image_row" where
  "imageRow scrapeID img tagsJSON exifJSON created updated =
     \<lparr>img_id = ImageInfo.ID img,
      img_scrape_id = scrapeID,
      img_url = ImageInfo.URL img,
      img_alt_text = Some (AltText img),
      img_summary = Some (Summary img),
      img_tags = Some tagsJSON,
      img_extracted_text = None,
      img_base64_data = Some (Base64Data img),
      img_file_path = Some (FilePath img),
      img_slug = Some (ImageInfo.Slug img),
      img_width = Some (Width img),
      img_height = Some (Height img),
      img_file_size_bytes = Some (FileSizeBytes img),
      img_content_type = Some (ContentType img),
      img_exif_data = Some exifJSON,
      img_relevance_score = Some 0.5,
      img_tombstone_datetime = None,
      img_created_at = created,
      img_updated_at = updated\<rparr>"

text \<open>
  The loop over \<^verbatim>\<open>data.Images\<close>: an image without an id is skipped; the first error
  ends the loop. \<open>k\<close> counts the readings of the clock.
\<close>

fun saveImages :: "json \<Rightarrow> (nat \<Rightarrow> time) \<Rightarrow> nat \<Rightarrow> string \<Rightarrow> ImageInfo list \<Rightarrow> DB \<Rightarrow> error + DB" where
  "saveImages js clock k scrapeID [] tx = Inr tx"
| "saveImages js clock k scrapeID (img # rest) tx =
     (if ImageInfo.ID img = [] then saveImages js clock k scrapeID rest tx
      else
        (case marshalTags js (Tags img) of
           Inl err \<Rightarrow> Inl (errorf ''failed to marshal image tags: '' err)
         | Inr tagsJSON \<Rightarrow>
             (case (case EXIF img of None \<Rightarrow> Inr [] | Some exif \<Rightarrow> marshalEXIF js exif) of
                Inl err \<Rightarrow> Inl (errorf ''failed to marshal EXIF: '' err)
              | Inr exifJSON \<Rightarrow>
                  (case exec_insert_image tx
                          (imageRow scrapeID img tagsJSON exifJSON (clock k) (clock (k + 1))) of
                     Inl err \<Rightarrow> Inl (errorf (''failed to save image '' @ ImageInfo.ID img @ '': '') err)
                   | Inr tx' \<Rightarrow> saveImages js clock (k + 2) scrapeID rest tx'))))"

text \<open>
  \<^verbatim>\<open>SaveScrapedData\<close> works on the transaction's copy \<open>tx\<close> of the store. Every error
  return runs the deferred \<^verbatim>\<open>Rollback\<close>, which leaves the store as it was; \<^verbatim>\<open>Commit\<close>
  makes the copy the store.
\<close>

definition SaveScrapedData :: "DB \<Rightarrow> json \<Rightarrow> (nat \<Rightarrow> time) \<Rightarrow> ScrapedData \<Rightarrow> error option \<times> DB" where
  "SaveScrapedData db js clock data =
     (if closed db then (Some (errorf ''failed to begin transaction: '' sql_closed), db)
      else
        (case marshalData js data of
           Inl err \<Rightarrow> (Some (errorf ''failed to marshal data: '' err), db)
         | Inr jsonData \<Rightarrow>
             (case exec_upsert_scraped_data db
                     \<lparr>sd_id = ScrapedData.ID data, sd_url = ScrapedData.URL data, sd_data = jsonData,
                      sd_slug = Some (ScrapedData.Slug data), sd_created_at = FetchedAt data,
                      sd_updated_at = clock 0\<rparr> of
                Inl err \<Rightarrow> (Some (errorf ''failed to save data: '' err), db)
              | Inr tx1 \<Rightarrow>
                  (case exec_delete_images tx1 (ScrapedData.ID data) of
                     Inl err \<Rightarrow> (Some (errorf ''failed to delete old images: '' err), db)
                   | Inr tx2 \<Rightarrow>
                       (case saveImages js clock 1 (ScrapedData.ID data) (Images data) tx2 of
                          Inl err \<Rightarrow> (Some err, db)
                        | Inr tx3 \<Rightarrow> (None, tx3))))))"

text \<open>What it means that a row of \<^verbatim>\<open>images\<close> is the row of an image of a scrape.\<close>

definition rowFor :: "string \<Rightarrow> ImageInfo \<Rightarrow> image_row \<Rightarrow> bool" where
  "rowFor scrapeID img r =
     (img_id r = ImageInfo.ID img \<and> img_scrape_id r = scrapeID \<and> img_url r = ImageInfo.URL img
      \<and> img_alt_text r = Some (AltText img) \<and> img_summary r = Some (Summary img)
      \<and> img_base64_data r = Some (Base64Data img) \<and> img_file_path r = Some (FilePath img)
      \<and> img_slug r = Some (ImageInfo.Slug img) \<and> img_width r = Some (Width img)
      \<and> img_height r = Some (Height img) \<and> img_file_size_bytes r = Some (FileSizeBytes img)
      \<and> img_content_type r = Some (ContentType img) \<and> img_tombstone_datetime r = None)"

definition hasID :: "ImageInfo \<Rightarrow> bool" where
  "hasID img = (ImageInfo.ID img \<noteq> [])"

lemma rowFor_imageRow: "rowFor scrapeID img (imageRow scrapeID img tagsJSON exifJSON c u)"
  by (simp add: rowFor_def imageRow_def)

lemma exec_insert_image_result:
  "exec_insert_image tx row = Inr tx' \<Longrightarrow>
     tx' = tx\<lparr>images := images tx @ [row]\<rparr>"
  by (auto simp: exec_insert_image_def split: if_splits)

lemma saveImages_result:
  "saveImages js clock k scrapeID imgs tx = Inr tx' \<Longrightarrow>
     scraped_data tx' = scraped_data tx \<and> closed tx' = closed tx
     \<and> (\<exists>rows. images tx' = images tx @ rows
                \<and> list_all2 (rowFor scrapeID) (filter hasID imgs) rows)"
proof (induction imgs arbitrary: k tx)
  case Nil
  then show ?case by simp
next
  case (Cons img rest)
  show ?case
  proof (cases "ImageInfo.ID img = []")
    case True
    with Cons.prems have "saveImages js clock k scrapeID rest tx = Inr tx'" by simp
    from Cons.IH[OF this] True show ?thesis by (simp add: hasID_def)
  next
    case False
    with Cons.prems obtain tagsJSON exifJSON tx1 where
      ins: "exec_insert_image tx (imageRow scrapeID img tagsJSON exifJSON (clock k) (clock (k + 1))) = Inr tx1"
      and rest: "saveImages js clock (k + 2) scrapeID rest tx1 = Inr tx'"
      by (auto split: sum.splits)
    let ?row = "imageRow scrapeID img tagsJSON exifJSON (clock k) (clock (k + 1))"
    from exec_insert_image_result[OF ins] have tx1: "tx1 = tx\<lparr>images := images tx @ [?row]\<rparr>" .
    from Cons.IH[OF rest] obtain rows where
      a: "scraped_data tx' = scraped_data tx1" "closed tx' = closed tx1"
      and b: "images tx' = images tx1 @ rows"
      and c: "list_all2 (rowFor scrapeID) (filter hasID rest) rows"
      by blast
    from b tx1 have "images tx' = images tx @ (?row # rows)" by simp
    moreover from c False have "list_all2 (rowFor scrapeID) (filter hasID (img # rest)) (?row # rows)"
      by (simp add: hasID_def rowFor_imageRow)
    ultimately show ?thesis using a tx1 by auto
  qed
qed

lemma filter_map_other_urls:
  "filter (\<lambda>r. sd_url r \<noteq> u)
     (map (\<lambda>r. if sd_url r = u
               then r\<lparr>sd_id := i, sd_data := d, sd_slug := s, sd_updated_at := t\<rparr> else r) rs)
   = filter (\<lambda>r. sd_url r \<noteq> u) rs"
  by (induction rs) auto

lemma exec_upsert_scraped_data_result:
  assumes "exec_upsert_scraped_data db new = Inr tx"
  shows "images tx = images db \<and> closed tx = closed db
         \<and> list_ex (\<lambda>r. sd_url r = sd_url new \<and> sd_id r = sd_id new \<and> sd_data r = sd_data new
                         \<and> sd_slug r = sd_slug new) (scraped_data tx)
         \<and> filter (\<lambda>r. sd_url r \<noteq> sd_url new) (scraped_data tx)
             = filter (\<lambda>r. sd_url r \<noteq> sd_url new) (scraped_data db)"
proof (cases "find (\<lambda>r. sd_url r = sd_url new) (scraped_data db)")
  case None
  with assms have "tx = db\<lparr>scraped_data := scraped_data db @ [new]\<rparr>"
    by (auto simp: exec_upsert_scraped_data_def Let_def split: if_splits)
  then show ?thesis by (simp add: list_ex_iff)
next
  case (Some old)
  with assms have tx: "tx = db\<lparr>scraped_data :=
                      map (\<lambda>r. if sd_url r = sd_url new
                                then r\<lparr>sd_id := sd_id new, sd_data := sd_data new,
                                       sd_slug := sd_slug new, sd_updated_at := sd_updated_at new\<rparr>
                                else r) (scraped_data db)\<rparr>"
    by (auto simp: exec_upsert_scraped_data_def Let_def split: if_splits)
  from Some have "old \<in> set (scraped_data db)" "sd_url old = sd_url new"
    by (auto simp: find_Some_iff)
  then have "old\<lparr>sd_id := sd_id new, sd_data := sd_data new, sd_slug := sd_slug new,
                 sd_updated_at := sd_updated_at new\<rparr> \<in> set (scraped_data tx)"
    unfolding tx by (auto intro!: image_eqI[of _ _ old])
  moreover note \<open>sd_url old = sd_url new\<close>
  ultimately have "list_ex (\<lambda>r. sd_url r = sd_url new \<and> sd_id r = sd_id new \<and> sd_data r = sd_data new
                         \<and> sd_slug r = sd_slug new) (scraped_data tx)"
    unfolding list_ex_iff
    by (intro bexI[of _ "old\<lparr>sd_id := sd_id new, sd_data := sd_data new, sd_slug := sd_slug new,
                 sd_updated_at := sd_updated_at new\<rparr>"]) simp_all
  with tx show ?thesis by (simp add: filter_map_other_urls)
qed

text \<open>A scrape with two images, the first without an id, and an empty store.\<close>

definition twoImages :: ScrapedData where
  "twoImages =
     \<lparr>ID = ''scrape-1'', URL = ''https://example.com/page'', Title = ''Page'', Content = ''text'',
      Images = [plainImage 800 600 [], (plainImage 800 600 [])\<lparr>ImageInfo.ID := ''img-1''\<rparr>],
      Links = [], FetchedAt = 100, CreatedAt = 100, ProcessingTime = 0, Cached = False,
      Metadata = \<lparr>Description = [], Keywords = [], Author = [], PublishedDate = [],
                  ExistingImageRefs = []\<rparr>,
      Score = None, Warnings = [], Slug = ''page''\<rparr>"

definition emptyDB :: DB where
  "emptyDB = \<lparr>closed = False, scraped_data = [], images = []\<rparr>"

definition constJSON :: json where
  "constJSON = \<lparr>marshalData = (\<lambda>d. Inr ''{}''), marshalTags = (\<lambda>t. Inr ''[]''),
                marshalEXIF = (\<lambda>e. Inr ''{}'')\<rparr>"

text \<open>
  Claim C2, as stated: one image row is inserted for every image of the record. It
  fails for a record with two images of which the first has no id: the save succeeds
  and the store has one image row, for the second image.
\<close>

theorem C2_save_counterexample:
  "length (Images twoImages) = 2
   \<and> fst (SaveScrapedData emptyDB constJSON (\<lambda>k. 200) twoImages) = None
   \<and> map img_id (images (snd (SaveScrapedData emptyDB constJSON (\<lambda>k. 200) twoImages))) = [''img-1'']"
  by (simp add: twoImages_def emptyDB_def constJSON_def SaveScrapedData_def plainImage_def
      exec_upsert_scraped_data_def exec_delete_images_def exec_insert_image_def imageRow_def
      int4_def Let_def)

text \<open>
  Claim C2, amended. If \<^verbatim>\<open>SaveScrapedData\<close> returns an error the store is unchanged.
  If it returns none, then in one step the store has got: a row with the record's
  URL that carries its id, its JSON and its slug, the rows of the other URLs being as
  before; none of the earlier image rows of the record's id; and at the end of the
  table, in the order of the list, one new row for every image of the record that has
  an id. Images without an id are skipped.
\<close>

theorem C2_save_replaces_images:
  "case SaveScrapedData db js clock data of
     (err, db') \<Rightarrow>
       if err = None then
         closed db' = closed db
         \<and> (\<exists>jsonData.
               marshalData js data = Inr jsonData
               \<and> list_ex (\<lambda>r. sd_url r = ScrapedData.URL data \<and> sd_id r = ScrapedData.ID data
                               \<and> sd_data r = jsonData \<and> sd_slug r = Some (ScrapedData.Slug data))
                    (scraped_data db'))
         \<and> filter (\<lambda>r. sd_url r \<noteq> ScrapedData.URL data) (scraped_data db')
             = filter (\<lambda>r. sd_url r \<noteq> ScrapedData.URL data) (scraped_data db)
         \<and> (\<exists>rows.
               images db' = filter (\<lambda>r. img_scrape_id r \<noteq> ScrapedData.ID data) (images db) @ rows
               \<and> list_all2 (rowFor (ScrapedData.ID data)) (filter hasID (Images data)) rows)
       else db' = db"
proof (cases "SaveScrapedData db js clock data")
  case (Pair err db')
  show ?thesis
  proof (cases "err = None")
    case False
    with Pair have "db' = db"
      by (auto simp: SaveScrapedData_def split: if_splits sum.splits)
    with Pair False show ?thesis by auto
  next
    case True
    let ?row = "\<lambda>jsonData. \<lparr>sd_id = ScrapedData.ID data, sd_url = ScrapedData.URL data, sd_data = jsonData,
                      sd_slug = Some (ScrapedData.Slug data), sd_created_at = FetchedAt data,
                      sd_updated_at = clock 0\<rparr>"
    from Pair True obtain jsonData tx1 tx2 where
      m: "marshalData js data = Inr jsonData"
      and u: "exec_upsert_scraped_data db (?row jsonData) = Inr tx1"
      and d: "exec_delete_images tx1 (ScrapedData.ID data) = Inr tx2"
      and s: "saveImages js clock 1 (ScrapedData.ID data) (Images data) tx2 = Inr db'"
      by (auto simp: SaveScrapedData_def split: if_splits sum.splits)
    from exec_upsert_scraped_data_result[OF u]
    have u1: "images tx1 = images db" "closed tx1 = closed db"
      and u2: "list_ex (\<lambda>r. sd_url r = ScrapedData.URL data \<and> sd_id r = ScrapedData.ID data
                               \<and> sd_data r = jsonData \<and> sd_slug r = Some (ScrapedData.Slug data))
                    (scraped_data tx1)"
      and u3: "filter (\<lambda>r. sd_url r \<noteq> ScrapedData.URL data) (scraped_data tx1)
             = filter (\<lambda>r. sd_url r \<noteq> ScrapedData.URL data) (scraped_data db)"
      by simp_all
    from d have tx2: "tx2 = tx1\<lparr>images := filter (\<lambda>r. img_scrape_id r \<noteq> ScrapedData.ID data) (images tx1)\<rparr>"
      by (simp add: exec_delete_images_def)
    from saveImages_result[OF s] obtain rows where
      s1: "scraped_data db' = scraped_data tx2" "closed db' = closed tx2"
      and s2: "images db' = images tx2 @ rows"
      and s3: "list_all2 (rowFor (ScrapedData.ID data)) (filter hasID (Images data)) rows"
      by blast
    have "\<exists>rows. images db' = filter (\<lambda>r. img_scrape_id r \<noteq> ScrapedData.ID data) (images db) @ rows
               \<and> list_all2 (rowFor (ScrapedData.ID data)) (filter hasID (Images data)) rows"
      using s2 s3 tx2 u1 by auto
    moreover have "\<exists>jsonData.
               marshalData js data = Inr jsonData
               \<and> list_ex (\<lambda>r. sd_url r = ScrapedData.URL data \<and> sd_id r = ScrapedData.ID data
                               \<and> sd_data r = jsonData \<and> sd_slug r = Some (ScrapedData.Slug data))
                    (scraped_data db')"
      using m u2 s1 tx2 by auto
    ultimately show ?thesis
      using Pair True s1 tx2 u1 u3 by simp
  qed
qed

section \<open>Filesystem storage\<close>

text \<open>
  Package \<^verbatim>\<open>storage\<close> on the local file system. The file system is the list of the
  files written, the newest first, each with its path and its bytes; a directory
  exists as soon as it is asked for, so \<^verbatim>\<open>os.MkdirAll\<close> and \<^verbatim>\<open>os.WriteFile\<close> succeed.
  \<^verbatim>\<open>filepath.Join\<close> puts a separator between the elements that are not empty, and
  \<^verbatim>\<open>filepath.Rel\<close> takes the base directory off the front; the library also
  normalises \<^verbatim>\<open>.\<close>, \<^verbatim>\<open>..\<close> and repeated separators, which the slugs of package
  \<^verbatim>\<open>slug\<close> never contain. The clock gives the year and the month of a save.
\<close>

type_synonym filesystem = "(string \<times> string) list"

record Config =
  BasePath :: string

record Storage =
  config :: Config

record date =
  Year :: int
  Month :: int

definition digitChar :: "nat \<Rightarrow> char" where
  "digitChar d = char_of (of_char CHR ''0'' + d)"

text \<open>The decimal digits of a number, as \<^verbatim>\<open>%d\<close> prints them.\<close>

function itoa :: "nat \<Rightarrow> string" where
  "itoa n = (if n < 10 then [digitChar n] else itoa (n div 10) @ [digitChar (n mod 10)])"
  by pat_completeness auto
termination
  by (relation "measure id") auto

declare itoa.simps [simp del]

text \<open>\<^verbatim>\<open>%04d\<close> and \<^verbatim>\<open>%02d\<close>: at least \<open>w\<close> characters, filled with zeros after the sign.\<close>

definition Sprintf_0d :: "nat \<Rightarrow> int \<Rightarrow> string" where
  "Sprintf_0d w n =
     (if n < 0 then CHR ''-'' # replicate (w - 1 - length (itoa (nat (- n)))) CHR ''0'' @ itoa (nat (- n))
      else replicate (w - length (itoa (nat n))) CHR ''0'' @ itoa (nat n))"

definition filepath_Join :: "string list \<Rightarrow> string" where
  "filepath_Join elems = Join (filter (\<lambda>e. e \<noteq> []) elems) ''/''"

definition filepath_Rel :: "string \<Rightarrow> string \<Rightarrow> error + string" where
  "filepath_Rel basepath targpath =
     (if basepath = [] then Inr targpath
      else if HasPrefix targpath (basepath @ ''/'') then Inr (drop (length basepath + 1) targpath)
      else Inl (Err ''Rel: cannot make the path relative''))"

definition os_MkdirAll :: "filesystem \<Rightarrow> string \<Rightarrow> error + filesystem" where
  "os_MkdirAll fs path = Inr fs"

definition os_WriteFile :: "filesystem \<Rightarrow> string \<Rightarrow> string \<Rightarrow> error + filesystem" where
  "os_WriteFile fs path bytes = Inr ((path, bytes) # fs)"


definition fileExists :: "filesystem \<Rightarrow> string \<Rightarrow> bool" where
  "fileExists fs path = (map_of fs path \<noteq> None)"

definition extensionFromContentType :: "string \<Rightarrow> string" where
  "extensionFromContentType contentType =
     (let ct = TrimSpace (ToLower (hd (Split contentType '';'')))
      in if ct = ''image/jpeg'' \<or> ct = ''image/jpg'' then ''.jpg''
         else if ct = ''image/png'' then ''.png''
         else if ct = ''image/gif'' then ''.gif''
         else if ct = ''image/webp'' then ''.webp''
         else if ct = ''image/svg+xml'' then ''.svg''
         else if ct = ''image/bmp'' then ''.bmp''
         else if ct = ''image/tiff'' then ''.tiff''
         else [])"

text \<open>The file name that the collision loop tries at a given value of the counter.\<close>

definition candidate :: "string \<Rightarrow> string \<Rightarrow> string \<Rightarrow> nat \<Rightarrow> string" where
  "candidate dirPath slug ext counter = filepath_Join [dirPath, slug @ ''-'' @ itoa counter @ ext]"

subsection \<open>The collision loop ends\<close>

lemma itoa_nonempty: "itoa n \<noteq> []"
  by (subst itoa.simps) simp

lemma digitChar_inj: "a < 10 \<Longrightarrow> b < 10 \<Longrightarrow> digitChar a = digitChar b \<Longrightarrow> a = b"
proof -
  assume a: "a < 10" and b: "b < 10" and e: "digitChar a = digitChar b"
  from e have "(of_char (digitChar a) :: nat) = of_char (digitChar b)" by simp
  with a b show "a = b" by (simp add: digitChar_def)
qed

lemma itoa_inj: "itoa m = itoa n \<Longrightarrow> m = n"
proof (induction m arbitrary: n rule: itoa.induct)
  case (1 m)
  show ?case
  proof (cases "m < 10")
    case small: True
    show ?thesis
    proof (cases "n < 10")
      case True
      with small "1.prems" show ?thesis
        by (simp add: itoa.simps[of m] itoa.simps[of n] digitChar_inj)
    next
      case False
      with small "1.prems" itoa_nonempty[of "n div 10"] show ?thesis
        by (simp add: itoa.simps[of m] itoa.simps[of n])
    qed
  next
    case big: False
    show ?thesis
    proof (cases "n < 10")
      case True
      with big "1.prems" itoa_nonempty[of "m div 10"] show ?thesis
        by (simp add: itoa.simps[of m] itoa.simps[of n])
    next
      case False
      with big "1.prems" have e: "itoa (m div 10) = itoa (n div 10)"
        and d: "digitChar (m mod 10) = digitChar (n mod 10)"
        by (simp_all add: itoa.simps[of m] itoa.simps[of n])
      from "1.IH"[OF big e] have "m div 10 = n div 10" .
      moreover from d have "m mod 10 = n mod 10" by (intro digitChar_inj) simp_all
      ultimately show ?thesis by (metis div_mult_mod_eq)
    qed
  qed
qed

lemma filepath_Join_two:
  "x \<noteq> [] \<Longrightarrow> filepath_Join [d, x] = (if d = [] then x else d @ ''/'' @ x)"
  by (simp add: filepath_Join_def)

lemma candidate_inj: "inj (candidate dirPath slug ext)"
proof (rule injI)
  fix a b assume "candidate dirPath slug ext a = candidate dirPath slug ext b"
  then have "itoa a = itoa b"
    by (simp add: candidate_def filepath_Join_two split: if_splits)
  then show "a = b" by (rule itoa_inj)
qed

lemma finite_existing_candidates: "finite {k. fileExists fs (candidate dirPath slug ext k)}"
proof -
  have "{k. fileExists fs (candidate dirPath slug ext k)} = candidate dirPath slug ext -` dom (map_of fs)"
    by (auto simp: fileExists_def)
  moreover have "finite (candidate dirPath slug ext -` dom (map_of fs))"
    by (intro finite_vimageI candidate_inj finite_dom_map_of)
  ultimately show ?thesis by simp
qed

definition remaining :: "filesystem \<Rightarrow> string \<Rightarrow> string \<Rightarrow> string \<Rightarrow> nat \<Rightarrow> nat" where
  "remaining fs dirPath slug ext counter =
     card {k. counter \<le> k \<and> fileExists fs (candidate dirPath slug ext k)}"

lemma remaining_step:
  "remaining fs dirPath slug ext (counter + 1)
     + (if fileExists fs (candidate dirPath slug ext counter) then 1 else 0)
   = remaining fs dirPath slug ext counter"
proof -
  let ?E = "\<lambda>k. fileExists fs (candidate dirPath slug ext k)"
  have fin: "finite {k. counter + 1 \<le> k \<and> ?E k}"
    by (rule finite_subset[OF _ finite_existing_candidates[of fs dirPath slug ext]]) auto
  show ?thesis
  proof (cases "?E counter")
    case True
    then have "{k. counter \<le> k \<and> ?E k} = insert counter {k. counter + 1 \<le> k \<and> ?E k}"
      by (auto simp: le_Suc_eq)
    with fin True show ?thesis by (simp add: remaining_def)
  next
    case False
    then have "{k. counter \<le> k \<and> ?E k} = {k. counter + 1 \<le> k \<and> ?E k}"
      by (auto simp: Suc_le_eq le_less)
    with False show ?thesis by (simp add: remaining_def)
  qed
qed

text \<open>
  The loop \<^verbatim>\<open>for fileExists(filePath) { ... counter++ }\<close>. It ends because the file
  system has finitely many files and the candidates are all different.
\<close>

function uniquePath :: "filesystem \<Rightarrow> string \<Rightarrow> string \<Rightarrow> string \<Rightarrow> string \<Rightarrow> nat \<Rightarrow> string" where
  "uniquePath fs dirPath slug ext filePath counter =
     (if fileExists fs filePath
      then uniquePath fs dirPath slug ext (candidate dirPath slug ext counter) (counter + 1)
      else filePath)"
  by pat_completeness auto
termination
proof (relation "measure (\<lambda>(fs, dirPath, slug, ext, filePath, counter).
          remaining fs dirPath slug ext counter + (if fileExists fs filePath then 1 else 0))")
  show "wf (measure (\<lambda>(fs, dirPath, slug, ext, filePath, counter).
          remaining fs dirPath slug ext counter + (if fileExists fs filePath then 1 else 0)))"
    by simp
next
  fix fs :: filesystem and dirPath slug ext filePath :: string and counter :: nat
  assume "fileExists fs filePath"
  then show "((fs, dirPath, slug, ext, candidate dirPath slug ext counter, counter + 1),
              (fs, dirPath, slug, ext, filePath, counter))
             \<in> measure (\<lambda>(fs, dirPath, slug, ext, filePath, counter).
                  remaining fs dirPath slug ext counter + (if fileExists fs filePath then 1 else 0))"
    using remaining_step[of fs dirPath slug ext counter] by simp
qed

declare uniquePath.simps [simp del]

text \<open>The extension of the file, \<^verbatim>\<open>.jpg\<close> by default, and the directory of the month.\<close>

definition imageExtension :: "string \<Rightarrow> string" where
  "imageExtension contentType =
     (let ext = extensionFromContentType contentType in if ext = [] then ''.jpg'' else ext)"

definition imageDirectory :: "Storage \<Rightarrow> date \<Rightarrow> string" where
  "imageDirectory s now =
     (let year = Sprintf_0d 4 (Year now);
          month = Sprintf_0d 2 (Month now)
      in filepath_Join [BasePath (config s), ''images'', year, month])"

definition SaveImage ::
  "Storage \<Rightarrow> filesystem \<Rightarrow> date \<Rightarrow> string \<Rightarrow> string \<Rightarrow> string \<Rightarrow> (error + string) \<times> filesystem" where
  "SaveImage s fs now imageData slug contentType =
     (let ext = imageExtension contentType;
          dirPath = imageDirectory s now
      in case os_MkdirAll fs dirPath of
           Inl err \<Rightarrow> (Inl (errorf ''failed to create image directory: '' err), fs)
         | Inr fs1 \<Rightarrow>
             let filename = slug @ ext;
                 filePath = uniquePath fs1 dirPath slug ext (filepath_Join [dirPath, filename]) 1
             in case os_WriteFile fs1 filePath imageData of
                  Inl err \<Rightarrow> (Inl (errorf ''failed to write image file: '' err), fs1)
                | Inr fs2 \<Rightarrow>
                    (case filepath_Rel (BasePath (config s)) filePath of
                       Inl err \<Rightarrow> (Inl (errorf ''failed to get relative path: '' err), fs2)
                     | Inr relPath \<Rightarrow> (Inr relPath, fs2)))"


definition dataStorage :: Storage where
  "dataStorage = \<lparr>config = \<lparr>BasePath = ''/data/storage''\<rparr>\<rparr>"

subsection \<open>What a save returns\<close>

















lemma save_twice_example:
  "SaveImage dataStorage [(''/data/storage/images/2024/01/photo.jpg'', ''first'')]
        \<lparr>Year = 2024, Month = 1\<rparr> ''second'' ''photo'' ''image/jpeg''
     = (Inr ''images/2024/01/photo-1.jpg'',
        [(''/data/storage/images/2024/01/photo-1.jpg'', ''second''),
         (''/data/storage/images/2024/01/photo.jpg'', ''first'')])"
  by code_simp

end
